theory Spec2Isabelle
  imports Main "HOL-Library.Word" "HOL-Library.Sublist"
begin

unbundle bit_operations_syntax

section \<open>JavaScript string primitives used by the sources\<close>

text \<open>
  Tokens, SQL texts and identifiers are written as \<open>char list\<close>.
  \<open>String.prototype.split\<close> with a one-character separator always returns at least one
  field: \<open>"".split(":")\<close> is \<open>[""]\<close>.
\<close>

fun splitOn :: "char \<Rightarrow> string \<Rightarrow> string list" where
  "splitOn c [] = [[]]"
| "splitOn c (x # xs) =
     (if x = c then [] # splitOn c xs
      else (case splitOn c xs of [] \<Rightarrow> [[x]] | f # fs \<Rightarrow> (x # f) # fs))"

section \<open>Credential vault: \<open>core/encryption.js\<close>\<close>

type_synonym bytes = "8 word list"

text \<open>\<open>Buffer.prototype.toString('hex')\<close>: two lower-case digits per byte.\<close>

definition hexDigit :: "nat \<Rightarrow> char" where
  "hexDigit n = (if n < 10 then char_of (48 + n) else char_of (87 + n))"

definition toHex :: "bytes \<Rightarrow> string" where
  "toHex bs = concat (map (\<lambda>b. [hexDigit (unat b div 16), hexDigit (unat b mod 16)]) bs)"

text \<open>
  Decoding \<open>'hex'\<close>, as \<open>Buffer.from(s, 'hex')\<close> does it: pairs of hex digits (either
  case) are decoded up to the first pair that is not hexadecimal, without raising; a
  trailing single character is dropped.
\<close>

definition hexVal :: "char \<Rightarrow> nat option" where
  "hexVal c =
     (let n = (of_char c :: nat) in
      if 48 \<le> n \<and> n \<le> 57 then Some (n - 48)
      else if 97 \<le> n \<and> n \<le> 102 then Some (n - 87)
      else if 65 \<le> n \<and> n \<le> 70 then Some (n - 55)
      else None)"

fun fromHex :: "string \<Rightarrow> bytes" where
  "fromHex (a # b # rest) =
     (case hexVal a of
        None \<Rightarrow> []
      | Some h \<Rightarrow> (case hexVal b of
                     None \<Rightarrow> []
                   | Some l \<Rightarrow> word_of_nat (h * 16 + l) # fromHex rest))"
| "fromHex _ = []"

text \<open>
  A JavaScript string is a sequence of UTF-16 code units.  \<open>js\<close> writes an ASCII literal
  as one.
\<close>

type_synonym jsstring = "16 word list"

definition js :: "string \<Rightarrow> jsstring" where
  "js s = map of_char s"

text \<open>
  The encoding \<open>'utf8'\<close> of a string, as \<open>cipher.update(text, 'utf8', ...)\<close> applies it:
  a high surrogate followed by a low one is one scalar value, any other surrogate is
  replaced by U+FFFD, and each scalar value is written in one to four bytes.
\<close>

definition is_high :: "16 word \<Rightarrow> bool" where
  "is_high u = (0xD800 \<le> unat u \<and> unat u \<le> 0xDBFF)"

definition is_low :: "16 word \<Rightarrow> bool" where
  "is_low u = (0xDC00 \<le> unat u \<and> unat u \<le> 0xDFFF)"

fun scalar_values :: "jsstring \<Rightarrow> nat list" where
  "scalar_values (u # v # rest) =
     (if is_high u \<and> is_low v
      then (0x10000 + (unat u - 0xD800) * 1024 + (unat v - 0xDC00)) # scalar_values rest
      else (if is_high u \<or> is_low u then 0xFFFD else unat u) # scalar_values (v # rest))"
| "scalar_values [u] = [if is_high u \<or> is_low u then 0xFFFD else unat u]"
| "scalar_values [] = []"

definition utf8_of_scalar :: "nat \<Rightarrow> nat list" where
  "utf8_of_scalar cp =
     (if cp < 0x80 then [cp]
      else if cp < 0x800 then [0xC0 + cp div 64, 0x80 + cp mod 64]
      else if cp < 0x10000
      then [0xE0 + cp div 4096, 0x80 + cp div 64 mod 64, 0x80 + cp mod 64]
      else [0xF0 + cp div 262144, 0x80 + cp div 4096 mod 64, 0x80 + cp div 64 mod 64,
            0x80 + cp mod 64])"

definition utf8_encode :: "jsstring \<Rightarrow> bytes" where
  "utf8_encode s = map word_of_nat (concat (map utf8_of_scalar (scalar_values s)))"

text \<open>The Unicode scalar values: the code points outside the surrogate range.\<close>

definition valid_scalar :: "nat \<Rightarrow> bool" where
  "valid_scalar cp = (cp < 0x110000 \<and> \<not> (0xD800 \<le> cp \<and> cp \<le> 0xDFFF))"

text \<open>
  The decoding \<open>'utf8'\<close> of bytes, as \<open>decipher.update(..., 'hex', 'utf8')\<close> and
  \<open>final('utf8')\<close> apply it.  \<open>scalars_of_utf8\<close> reads a well-formed byte sequence
  (shortest form, no surrogate, at most U+10FFFF); what the library makes of an ill-formed
  one is the parameter \<open>repair\<close>.
\<close>

definition is_cont :: "nat \<Rightarrow> bool" where
  "is_cont b = (0x80 \<le> b \<and> b \<le> 0xBF)"

fun scalars_of_utf8 :: "nat list \<Rightarrow> nat list option" where
  "scalars_of_utf8 [] = Some []"
| "scalars_of_utf8 (b0 # rest) =
     (if b0 < 0x80 then map_option ((#) b0) (scalars_of_utf8 rest)
      else if 0xC2 \<le> b0 \<and> b0 \<le> 0xDF then
        (case rest of
           b1 # r \<Rightarrow>
             if is_cont b1
             then map_option ((#) ((b0 - 0xC0) * 64 + (b1 - 0x80))) (scalars_of_utf8 r)
             else None
         | _ \<Rightarrow> None)
      else if 0xE0 \<le> b0 \<and> b0 \<le> 0xEF then
        (case rest of
           b1 # b2 # r \<Rightarrow>
             let cp = (b0 - 0xE0) * 4096 + (b1 - 0x80) * 64 + (b2 - 0x80) in
             if is_cont b1 \<and> is_cont b2 \<and> 0x800 \<le> cp \<and> \<not> (0xD800 \<le> cp \<and> cp \<le> 0xDFFF)
             then map_option ((#) cp) (scalars_of_utf8 r)
             else None
         | _ \<Rightarrow> None)
      else if 0xF0 \<le> b0 \<and> b0 \<le> 0xF4 then
        (case rest of
           b1 # b2 # b3 # r \<Rightarrow>
             let cp = (b0 - 0xF0) * 262144 + (b1 - 0x80) * 4096 + (b2 - 0x80) * 64 + (b3 - 0x80) in
             if is_cont b1 \<and> is_cont b2 \<and> is_cont b3 \<and> 0x10000 \<le> cp \<and> cp \<le> 0x10FFFF
             then map_option ((#) cp) (scalars_of_utf8 r)
             else None
         | _ \<Rightarrow> None)
      else None)"

definition units_of_scalar :: "nat \<Rightarrow> jsstring" where
  "units_of_scalar cp =
     (if cp < 0x10000 then [word_of_nat cp]
      else [word_of_nat (0xD800 + (cp - 0x10000) div 1024),
            word_of_nat (0xDC00 + (cp - 0x10000) mod 1024)])"

definition utf8_decode :: "(bytes \<Rightarrow> jsstring) \<Rightarrow> bytes \<Rightarrow> jsstring" where
  "utf8_decode repair bs =
     (case scalars_of_utf8 (map unat bs) of
        Some cps \<Rightarrow> concat (map units_of_scalar cps)
      | None \<Rightarrow> repair bs)"

text \<open>A string without unpaired surrogates.\<close>

fun well_formed :: "jsstring \<Rightarrow> bool" where
  "well_formed (u # v # rest) =
     (if is_high u then is_low v \<and> well_formed rest
      else \<not> is_low u \<and> well_formed (v # rest))"
| "well_formed [u] = (\<not> is_high u \<and> \<not> is_low u)"
| "well_formed [] = True"

text \<open>
  The cipher \<open>aes-256-gcm\<close> of Node's \<open>crypto\<close> module is not code of this
  repository.  Of the mode the model keeps its structure: the text is XORed with a key
  stream that depends on the key and the nonce, and the tag of 128 bits is computed from
  the key, the nonce and the ciphertext (the code passes no additional data).  The key
  stream and the tag function are parameters, and so is the repair of ill-formed UTF-8.
\<close>

record gcm =
  keystream_byte :: "bytes \<Rightarrow> bytes \<Rightarrow> nat \<Rightarrow> 8 word"
  auth_tag :: "bytes \<Rightarrow> bytes \<Rightarrow> bytes \<Rightarrow> 128 word"
  utf8_repair :: "bytes \<Rightarrow> jsstring"

fun ctr_from :: "(nat \<Rightarrow> 8 word) \<Rightarrow> nat \<Rightarrow> bytes \<Rightarrow> bytes" where
  "ctr_from ks i [] = []"
| "ctr_from ks i (b # bs) = (b XOR ks i) # ctr_from ks (Suc i) bs"

text \<open>The 16 bytes of a tag, most significant first.\<close>

definition tag_bytes :: "128 word \<Rightarrow> bytes" where
  "tag_bytes w = map (\<lambda>i. ucast (drop_bit (8 * (15 - i)) w)) [0..<16]"

text \<open>
  The library's checks: \<open>createCipheriv\<close> and \<open>createDecipheriv\<close> throw unless the key
  has 32 bytes and the nonce is not empty; \<open>setAuthTag\<close> throws unless the tag has 4, 8
  or 12 to 16 bytes; \<open>update\<close> throws on a hex string of odd length; \<open>final\<close> throws
  unless the given tag is the leading part of the computed one.
\<close>

definition valid_tag_length :: "nat \<Rightarrow> bool" where
  "valid_tag_length n = (n = 4 \<or> n = 8 \<or> (12 \<le> n \<and> n \<le> 16))"

text \<open>
  \<open>encrypt\<close>: \<open>iv\<close> is the value of \<open>crypto.randomBytes(IV_LENGTH)\<close>; the token is
  \<open>iv:authTag:ciphertext\<close>, each field in hex.
\<close>

definition encrypt :: "gcm \<Rightarrow> bytes \<Rightarrow> bytes \<Rightarrow> jsstring \<Rightarrow> string option" where
  "encrypt C KEY iv text =
     (if length KEY \<noteq> 32 \<or> iv = [] then None
      else
        let encrypted = ctr_from (keystream_byte C KEY iv) 0 (utf8_encode text);
            authTag = tag_bytes (auth_tag C KEY iv encrypted)
        in Some (toHex iv @ '':'' @ toHex authTag @ '':'' @ toHex encrypted))"

text \<open>
  \<open>decrypt\<close>: the destructuring \<open>[ivHex, authTagHex, encryptedText] = hash.split(':')\<close>
  takes the first three fields and ignores any further one; with fewer than three fields
  a field is \<open>undefined\<close> and \<open>Buffer.from\<close> or \<open>update\<close> throws a TypeError.  The
  first two fields are decoded by \<open>Buffer.from(..., 'hex')\<close>, the third by
  \<open>update(encryptedText, 'hex', 'utf8')\<close>.
\<close>

definition decrypt :: "gcm \<Rightarrow> bytes \<Rightarrow> string \<Rightarrow> jsstring option" where
  "decrypt C KEY hash =
     (case splitOn CHR '':'' hash of
        ivHex # authTagHex # encryptedText # _ \<Rightarrow>
          let iv = fromHex ivHex;
              authTag = fromHex authTagHex
          in if length KEY \<noteq> 32 \<or> iv = [] then None
             else if \<not> valid_tag_length (length authTag) then None
             else if odd (length encryptedText) then None
             else
               let ct = fromHex encryptedText in
               if authTag \<noteq> take (length authTag) (tag_bytes (auth_tag C KEY iv ct)) then None
               else Some (utf8_decode (utf8_repair C) (ctr_from (keystream_byte C KEY iv) 0 ct))
      | _ \<Rightarrow> None)"

text \<open>
  A small instance of the parameters, used to evaluate the definitions on concrete
  inputs: the key stream counts up from the first key byte, and the tag repeats the sum
  of the bytes of key, nonce and ciphertext.
\<close>

definition demo_gcm :: gcm where
  "demo_gcm =
     \<lparr> keystream_byte = (\<lambda>k iv i. (case k of [] \<Rightarrow> 0 | b # _ \<Rightarrow> b) + of_nat i),
       auth_tag = (\<lambda>k iv ct.
         of_nat (sum_list (map unat (k @ iv @ ct))) * 0x01010101010101010101010101010101),
       utf8_repair = (\<lambda>bs. [0xFFFD]) \<rparr>"

definition demo_key :: bytes where
  "demo_key = replicate 32 7"

definition other_key :: bytes where
  "other_key = replicate 32 9"

definition demo_iv :: bytes where
  "demo_iv = replicate 16 1"

section \<open>Workspace controller: \<open>addConnection\<close> and \<open>switchConnection\<close>\<close>

text \<open>A row of the table \<open>user_connections\<close> of the metadata database.\<close>

record user_connection =
  uc_id :: nat
  uc_user_id :: string
  uc_label :: string
  uc_encrypted_url :: string
  uc_is_active :: bool

record metadata_db =
  user_connections :: "user_connection list"
  next_id :: nat


text \<open>\<open>INSERT INTO user_connections (user_id, label, encrypted_url, is_active) VALUES ...\<close>\<close>

definition insert_connection ::
  "metadata_db \<Rightarrow> string \<Rightarrow> string \<Rightarrow> string \<Rightarrow> bool \<Rightarrow> metadata_db" where
  "insert_connection db userId lbl encryptedUrl isActive =
     \<lparr> user_connections = user_connections db @
         [\<lparr> uc_id = next_id db, uc_user_id = userId, uc_label = lbl,
            uc_encrypted_url = encryptedUrl, uc_is_active = isActive \<rparr>],
       next_id = Suc (next_id db) \<rparr>"

text \<open>\<open>UPDATE user_connections SET is_active = false WHERE user_id = $1\<close>\<close>

definition deactivate_all :: "metadata_db \<Rightarrow> string \<Rightarrow> metadata_db" where
  "deactivate_all db userId =
     db\<lparr> user_connections :=
          map (\<lambda>r. if uc_user_id r = userId then r\<lparr> uc_is_active := False \<rparr> else r)
              (user_connections db) \<rparr>"

text \<open>
  \<open>UPDATE user_connections SET is_active = true WHERE id = $1 AND user_id = $2 RETURNING id\<close>,
  with its \<open>rowCount\<close>.
\<close>

definition activate_one :: "metadata_db \<Rightarrow> nat \<Rightarrow> string \<Rightarrow> nat \<times> metadata_db" where
  "activate_one db connectionId userId =
     (length (filter (\<lambda>r. uc_id r = connectionId \<and> uc_user_id r = userId) (user_connections db)),
      db\<lparr> user_connections :=
          map (\<lambda>r. if uc_id r = connectionId \<and> uc_user_id r = userId
                    then r\<lparr> uc_is_active := True \<rparr> else r)
              (user_connections db) \<rparr>)"

text \<open>
  The statements that the repository runs against \<open>user_connections\<close> and that change
  it.  Each \<open>await queryMetadata(...)\<close> runs one of them; between two statements of one
  request the statements of other requests may run.
\<close>

datatype db_statement =
    Insert string string string bool
  | DeactivateAll string
  | ActivateOne nat string

fun run_statement :: "metadata_db \<Rightarrow> db_statement \<Rightarrow> metadata_db" where
  "run_statement db (Insert userId lbl encryptedUrl isActive) =
     insert_connection db userId lbl encryptedUrl isActive"
| "run_statement db (DeactivateAll userId) = deactivate_all db userId"
| "run_statement db (ActivateOne connectionId userId) = snd (activate_one db connectionId userId)"

definition run_statements :: "metadata_db \<Rightarrow> db_statement list \<Rightarrow> metadata_db" where
  "run_statements db stmts = foldl run_statement db stmts"







text \<open>
  \<open>switchConnection\<close>, run without interleaving: \<open>!userId || !connectionId\<close> holds for a
  missing or empty user id and for a missing connection id or the id 0, and is answered
  with 400 before anything is written; otherwise every connection of the user is made
  inactive, then the chosen one is made active, and 404 is answered when no row matched.
  The call of \<open>closePool\<close> between the guard and the statements does not touch
  \<open>user_connections\<close>.
\<close>

definition switchConnection ::
  "metadata_db \<Rightarrow> string option \<Rightarrow> nat option \<Rightarrow> nat \<times> metadata_db" where
  "switchConnection db userIdOpt connectionIdOpt =
     (case (userIdOpt, connectionIdOpt) of
        (Some userId, Some connectionId) \<Rightarrow>
          if userId = [] \<or> connectionId = 0 then (400, db)
          else
            let db1 = deactivate_all db userId;
                (rowCount, db2) = activate_one db1 connectionId userId
            in if rowCount = 0 then (404, db2) else (200, db2)
      | _ \<Rightarrow> (400, db))"

section \<open>Connection pool manager: \<open>core/pool-manager.ts\<close>\<close>

text \<open>ASCII case mapping of \<open>toLowerCase\<close> and \<open>toUpperCase\<close>.\<close>

definition lowerChar :: "char \<Rightarrow> char" where
  "lowerChar c =
     (let n = (of_char c :: nat) in if 65 \<le> n \<and> n \<le> 90 then char_of (n + 32) else c)"

definition upperChar :: "char \<Rightarrow> char" where
  "upperChar c =
     (let n = (of_char c :: nat) in if 97 \<le> n \<and> n \<le> 122 then char_of (n - 32) else c)"

definition toLowerCase :: "string \<Rightarrow> string" where
  "toLowerCase s = map lowerChar s"

definition toUpperCase :: "string \<Rightarrow> string" where
  "toUpperCase s = map upperChar s"

text \<open>\<open>s.startsWith(p)\<close>\<close>

definition startsWith :: "string \<Rightarrow> string \<Rightarrow> bool" where
  "startsWith s p = (take (length p) s = p)"

text \<open>
  The test \<open>connectionString.toLowerCase().startsWith('mysql')\<close> on a string of UTF-16
  code units.  No character outside ASCII has one of the letters of \<open>mysql\<close> as its
  lower case, so the test looks at the first five code units and at ASCII case only.
\<close>

definition lower_unit :: "16 word \<Rightarrow> 16 word" where
  "lower_unit u = (if 65 \<le> unat u \<and> unat u \<le> 90 then u + 32 else u)"

definition isMysql :: "jsstring \<Rightarrow> bool" where
  "isMysql cs = (map lower_unit (take 5 cs) = js ''mysql'')"

text \<open>
  What the code hands to the database driver when it builds a pool.  A field is \<open>None\<close>
  when the code does not pass that option.  \<open>error_listener\<close> is the user whose pool the
  registered \<open>'error'\<close> listener closes, \<open>None\<close> when no listener is registered.
  \<open>handle_id\<close> is the identity of the JavaScript object.
\<close>

datatype dialect = MySQL | Postgres

record pool_handle =
  handle_id :: nat
  handle_dialect :: dialect
  connectionString :: jsstring
  opt_max :: "nat option"
  opt_idleTimeoutMillis :: "nat option"
  opt_connectionTimeoutMillis :: "nat option"
  error_listener :: "string option"

text \<open>
  The \<open>ConnectionManager\<close> object with what the run-time holds about it: its \<open>pools\<close>
  map, the next fresh object identity, and \<open>closing\<close>, the calls of \<open>closePool\<close> that are
  suspended at \<open>await pool.end()\<close>, by user and in the order in which they were made.
\<close>

record ConnectionManager =
  pools :: "string \<rightharpoonup> pool_handle"
  next_handle :: nat
  closing :: "string list"

definition new_ConnectionManager :: ConnectionManager where
  "new_ConnectionManager = \<lparr> pools = Map.empty, next_handle = 0, closing = [] \<rparr>"

datatype pool_error = DecryptionError | NotAString

text \<open>
  \<open>getPool\<close> has no \<open>await\<close> in its body and runs as one step: a stored handle is
  returned at once; otherwise the URL is decrypted and, by the scheme of the connection
  string, a MySQL adapter or a Postgres pool is built, stored and returned.  The MySQL
  branch calls \<open>mysql.createPool(connectionString)\<close> and registers nothing; the Postgres
  branch passes \<open>max: 10\<close>, \<open>idleTimeoutMillis: 30000\<close>, \<open>connectionTimeoutMillis: 5000\<close>
  and registers an \<open>'error'\<close> listener that calls \<open>closePool(userId)\<close>.  Both
  constructors are taken to accept the connection string; they open no connection.
\<close>

definition getPool ::
  "gcm \<Rightarrow> bytes \<Rightarrow> ConnectionManager \<Rightarrow> string \<Rightarrow> string
     \<Rightarrow> (pool_error + pool_handle) \<times> ConnectionManager" where
  "getPool C KEY mgr userId encryptedUrl =
     (let poolKey = userId in
      case pools mgr poolKey of
        Some h \<Rightarrow> (Inr h, mgr)
      | None \<Rightarrow>
          (case decrypt C KEY encryptedUrl of
             None \<Rightarrow> (Inl DecryptionError, mgr)
           | Some cs \<Rightarrow>
               if cs = [] then (Inl NotAString, mgr)
               else
                 if isMysql cs then
                   let adapter = \<lparr> handle_id = next_handle mgr, handle_dialect = MySQL,
                         connectionString = cs, opt_max = None,
                         opt_idleTimeoutMillis = None, opt_connectionTimeoutMillis = None,
                         error_listener = None \<rparr>
                   in (Inr adapter,
                       mgr\<lparr> pools := (pools mgr)(poolKey \<mapsto> adapter),
                            next_handle := Suc (next_handle mgr) \<rparr>)
                 else
                   let pgPool = \<lparr> handle_id = next_handle mgr, handle_dialect = Postgres,
                         connectionString = cs, opt_max = Some 10,
                         opt_idleTimeoutMillis = Some 30000,
                         opt_connectionTimeoutMillis = Some 5000,
                         error_listener = Some userId \<rparr>
                   in (Inr pgPool,
                       mgr\<lparr> pools := (pools mgr)(poolKey \<mapsto> pgPool),
                            next_handle := Suc (next_handle mgr) \<rparr>)))"

text \<open>
  \<open>closePool\<close> runs in two steps.  \<open>closePool_begin\<close> is the call up to its \<open>await\<close>:
  when a handle is stored, \<open>pool.end()\<close> is started and the call is suspended, with the
  entry still in the map; when none is stored the call is over.  \<open>closePool_finally\<close> is
  the rest of a suspended call, run when \<open>pool.end()\<close> has settled: a failure is logged,
  and \<open>this.pools.delete(userId)\<close> removes whatever is stored for the user by then.
  \<open>closePool\<close> is a call between whose two steps nothing else runs.
\<close>

definition closePool_begin :: "ConnectionManager \<Rightarrow> string \<Rightarrow> ConnectionManager" where
  "closePool_begin mgr userId =
     (case pools mgr userId of
        None \<Rightarrow> mgr
      | Some pool \<Rightarrow> mgr\<lparr> closing := closing mgr @ [userId] \<rparr>)"

definition closePool_finally :: "ConnectionManager \<Rightarrow> string \<Rightarrow> ConnectionManager" where
  "closePool_finally mgr userId =
     (if userId \<in> set (closing mgr)
      then mgr\<lparr> pools := (pools mgr)(userId := None),
                closing := remove1 userId (closing mgr) \<rparr>
      else mgr)"

definition closePool :: "ConnectionManager \<Rightarrow> string \<Rightarrow> ConnectionManager" where
  "closePool mgr userId = closePool_finally (closePool_begin mgr userId) userId"

text \<open>
  What happens to the manager, in the order in which it happens: a call of \<open>getPool\<close>,
  a call of \<open>closePool\<close> (by \<open>switchConnection\<close>), a pool emitting \<open>'error'\<close> (its
  listener, if one is registered, calls \<open>closePool\<close> without awaiting it), and a
  suspended \<open>closePool\<close> being resumed.
\<close>

datatype pool_event =
    GetPool string string
  | ClosePool string
  | ErrorEmitted pool_handle
  | ClosePoolResumed string

fun pool_step :: "gcm \<Rightarrow> bytes \<Rightarrow> ConnectionManager \<Rightarrow> pool_event \<Rightarrow> ConnectionManager" where
  "pool_step C KEY mgr (GetPool userId encryptedUrl) = snd (getPool C KEY mgr userId encryptedUrl)"
| "pool_step C KEY mgr (ClosePool userId) = closePool_begin mgr userId"
| "pool_step C KEY mgr (ErrorEmitted pool) =
     (case error_listener pool of None \<Rightarrow> mgr | Some userId \<Rightarrow> closePool_begin mgr userId)"
| "pool_step C KEY mgr (ClosePoolResumed userId) = closePool_finally mgr userId"

definition pool_run :: "gcm \<Rightarrow> bytes \<Rightarrow> ConnectionManager \<Rightarrow> pool_event list \<Rightarrow> ConnectionManager" where
  "pool_run C KEY mgr events = foldl (pool_step C KEY) mgr events"



text \<open>
  What the database drivers answer to a query.  \<open>pg\<close> resolves to a result whose rows
  are objects built from the field names, and to an array of such results when the text
  holds several statements.  \<open>mysql2\<close> resolves to the rows and their fields for a
  statement that returns a result set, and to a result header, without fields, for a
  statement that returns none.  Replies of \<open>mysql2\<close> with several result sets (a
  procedure call, or a text of several statements when the connection string sets
  \<open>multipleStatements\<close>) are not among the values of \<open>mysql_reply\<close>.
\<close>

datatype js_value = JStr string | JNum int | JBool bool | JNull

type_synonym js_object = "(string \<times> js_value) list"

text \<open>
  A JavaScript object: its own properties in order.  \<open>obj_set\<close> is the assignment of a
  property, which keeps the position of a property that exists.
\<close>

fun obj_set :: "js_object \<Rightarrow> string \<Rightarrow> js_value \<Rightarrow> js_object" where
  "obj_set [] k v = [(k, v)]"
| "obj_set ((k', v') # ps) k v =
     (if k' = k then (k, v) # ps else (k', v') # obj_set ps k v)"

text \<open>\<open>{ ...target, ...source }\<close>: the properties of the source are assigned in order.\<close>

definition spread :: "js_object \<Rightarrow> js_object \<Rightarrow> js_object" where
  "spread target source = foldl (\<lambda>acc (k, v). obj_set acc k v) target source"

text \<open>The row object that a driver builds from the field names and the values of a row.\<close>

definition row_object :: "string list \<Rightarrow> js_value list \<Rightarrow> js_object" where
  "row_object names vals = spread [] (zip names vals)"

record pg_result =
  pg_fields :: "string list"
  pg_values :: "js_value list list"
  pg_rowCount :: "nat option"

datatype pg_reply = PgResult pg_result | PgResults "pg_result list"




text \<open>
  What \<open>client.query(sql)\<close> resolves to, as \<open>executeQuery\<close> reads it: the properties
  \<open>rows\<close>, \<open>fields\<close> (their names) and \<open>rowCount\<close>, each \<open>None\<close> when it is \<open>undefined\<close>
  or \<open>null\<close>.
\<close>

record query_result =
  res_rows :: "js_object list option"
  res_fields :: "string list option"
  res_rowCount :: "nat option"


text \<open>
  A Postgres pool is handed out as it is: \<open>client.query\<close> resolves to the driver's
  result, and an array of results has none of the three properties.
\<close>

fun pg_query_result :: "pg_reply \<Rightarrow> query_result" where
  "pg_query_result (PgResult r) =
     \<lparr> res_rows = Some (map (row_object (pg_fields r)) (pg_values r)),
       res_fields = Some (pg_fields r), res_rowCount = pg_rowCount r \<rparr>"
| "pg_query_result (PgResults rs) =
     \<lparr> res_rows = None, res_fields = None, res_rowCount = None \<rparr>"

section \<open>Query execution gateway: \<open>modules/query/query.service.js\<close>\<close>

datatype exec_result =
    JsonResult "js_object list option" nat
  | TableResult "string list" "js_object list option" nat

datatype exec_error = PoolFailure pool_error | ConnectError | QueryError string | TypeError

text \<open>
  The body of the \<open>try\<close> block of \<open>executeQuery\<close>, after the query.  In the format
  \<open>'json'\<close> the rows are passed on as they are, \<open>undefined\<close> included.  Otherwise
  \<open>hasFields\<close> is false also when \<open>result.fields\<close> is \<open>undefined\<close>; then
  \<open>result.rows[0]\<close> of an empty array is \<open>undefined\<close>, and spreading \<open>undefined\<close> adds
  nothing, while \<open>result.rows[0]\<close> with \<open>result.rows\<close> \<open>undefined\<close> throws a TypeError.
\<close>

definition shape_result :: "string \<Rightarrow> query_result \<Rightarrow> exec_error + exec_result" where
  "shape_result format result =
     (let rowCount = (case res_rowCount result of None \<Rightarrow> 0 | Some n \<Rightarrow> n) in
      if format = ''json'' then Inr (JsonResult (res_rows result) rowCount)
      else
        (case res_fields result of
           Some (f # fs) \<Rightarrow>
             Inr (TableResult (f # fs) (res_rows result) rowCount)
         | _ \<Rightarrow>
             (case res_rows result of
                None \<Rightarrow> Inl TypeError
              | Some rows \<Rightarrow>
                  Inr (TableResult [''Status'']
                         (Some [spread [(''Status'', JStr ''Success'')]
                                  (case rows of [] \<Rightarrow> [] | r # _ \<Rightarrow> r)])
                         rowCount))))"




section \<open>Schema introspection: \<open>modules/ai/schema-analyzer.ts\<close>\<close>

record ColumnMetadata =
  columnName :: string
  dataType :: string
  isNullable :: bool
  isUnique :: bool
  isForeignKey :: bool
  foreignKeyReference :: "string option"

record IndexMetadata =
  indexName :: string
  idx_columns :: "string list"
  idx_isUnique :: bool

record TableMetadata =
  tableName :: string
  columns :: "ColumnMetadata list"
  primaryKey :: "string list option"
  indexes :: "IndexMetadata list option"

datatype relationship_type = ONE_TO_MANY | ONE_TO_ONE | MANY_TO_MANY

record RelationshipMetadata =
  fromTable :: string
  toTable :: string
  fromColumn :: string
  toColumn :: string
  rel_type :: relationship_type

datatype DatabaseType = postgres | mysql

record SchemaContext =
  tables :: "TableMetadata list"
  relationships :: "RelationshipMetadata list"
  databaseType :: DatabaseType
  cachedAt :: nat

text \<open>The raw rows of the two catalogue queries; \<open>is_nullable\<close> is a string or a boolean.\<close>

datatype string_or_bool = Str string | Bool bool

record RawSchemaRow =
  table_name :: string
  column_name :: string
  data_type :: string
  is_nullable :: string_or_bool

record RawConstraintRow =
  con_table_name :: string
  con_column_name :: string
  constraint_type :: string
  referenced_table_name :: "string option"
  referenced_column_name :: "string option"

record RawSchemaPayload =
  raw_schema :: "RawSchemaRow list option"
  raw_constraints :: "RawConstraintRow list option"

text \<open>
  \<open>tableMap\<close> is a JavaScript \<open>Map\<close>: keys in insertion order, each at most once.
  \<open>map_modify\<close> is a mutation of the object stored under a key.
\<close>

type_synonym tableMap = "(string \<times> TableMetadata) list"

definition map_has :: "tableMap \<Rightarrow> string \<Rightarrow> bool" where
  "map_has m k = (map_of m k \<noteq> None)"

definition map_modify :: "tableMap \<Rightarrow> string \<Rightarrow> (TableMetadata \<Rightarrow> TableMetadata) \<Rightarrow> tableMap" where
  "map_modify m k f = map (\<lambda>(k', t). if k' = k then (k', f t) else (k', t)) m"

text \<open>The body of the first loop of \<open>parseSchema\<close>, over the column rows.\<close>

definition add_column_row :: "tableMap \<Rightarrow> RawSchemaRow \<Rightarrow> tableMap" where
  "add_column_row m row =
     (let tName = table_name row;
          m1 = (if \<not> map_has m tName
                then m @ [(tName, \<lparr> tableName = tName, columns = [], primaryKey = None,
                                     indexes = Some [] \<rparr>)]
                else m);
          column = \<lparr> columnName = column_name row, dataType = data_type row,
                     isNullable = (is_nullable row = Str ''YES'' \<or> is_nullable row = Bool True),
                     isUnique = False, isForeignKey = False, foreignKeyReference = None \<rparr>
      in map_modify m1 tName (\<lambda>t. t\<lparr> columns := columns t @ [column] \<rparr>))"

text \<open>
  \<open>table.columns.find(...)\<close> returns the first column of that name; the assignments to
  \<open>column.isUnique\<close> and \<open>column.isForeignKey\<close> change that object in place.
\<close>

fun modify_first :: "('a \<Rightarrow> bool) \<Rightarrow> ('a \<Rightarrow> 'a) \<Rightarrow> 'a list \<Rightarrow> 'a list" where
  "modify_first P f [] = []"
| "modify_first P f (x # xs) = (if P x then f x # xs else x # modify_first P f xs)"

text \<open>
  The body of the second loop, over the constraint rows, on the map and the
  \<open>relationships\<close> array.  \<open>if (constraint.referenced_table_name)\<close> holds for a string
  that is present and not empty.
\<close>

definition apply_constraint ::
  "tableMap \<times> RelationshipMetadata list \<Rightarrow> RawConstraintRow
     \<Rightarrow> tableMap \<times> RelationshipMetadata list" where
  "apply_constraint st con =
     (let (m, rels) = st in
      case map_of m (con_table_name con) of
        None \<Rightarrow> (m, rels)
      | Some table \<Rightarrow>
          (case find (\<lambda>item. columnName item = con_column_name con) (columns table) of
             None \<Rightarrow> (m, rels)
           | Some column \<Rightarrow>
               if constraint_type con = ''PRIMARY KEY'' then
                 (map_modify m (con_table_name con)
                    (\<lambda>t. t\<lparr> primaryKey :=
                         Some ((case primaryKey t of None \<Rightarrow> [] | Some pk \<Rightarrow> pk)
                               @ [con_column_name con]) \<rparr>),
                  rels)
               else if constraint_type con = ''UNIQUE'' then
                 (map_modify m (con_table_name con)
                    (\<lambda>t. t\<lparr> columns :=
                             modify_first (\<lambda>item. columnName item = con_column_name con)
                               (\<lambda>c. c\<lparr> isUnique := True \<rparr>) (columns t),
                           indexes :=
                             Some ((case indexes t of None \<Rightarrow> [] | Some ix \<Rightarrow> ix)
                               @ [\<lparr> indexName = ''uniq_'' @ con_table_name con @ ''_''
                                        @ con_column_name con,
                                     idx_columns = [con_column_name con],
                                     idx_isUnique = True \<rparr>]) \<rparr>),
                  rels)
               else if constraint_type con = ''FOREIGN KEY'' then
                 (map_modify m (con_table_name con)
                    (\<lambda>t. t\<lparr> columns :=
                             modify_first (\<lambda>item. columnName item = con_column_name con)
                               (\<lambda>c. c\<lparr> isForeignKey := True,
                                       foreignKeyReference := referenced_table_name con \<rparr>)
                               (columns t) \<rparr>),
                  (case referenced_table_name con of
                     None \<Rightarrow> rels
                   | Some refTable \<Rightarrow>
                       if refTable = [] then rels
                       else rels @
                         [\<lparr> fromTable = con_table_name con, toTable = refTable,
                            fromColumn = con_column_name con,
                            toColumn = (case referenced_column_name con of
                                          None \<Rightarrow> con_column_name con | Some rc \<Rightarrow> rc),
                            rel_type = ONE_TO_MANY \<rparr>]))
               else (m, rels)))"

text \<open>\<open>parseSchema\<close>; \<open>now\<close> is the value of \<open>new Date()\<close>.\<close>

definition parseSchema :: "RawSchemaPayload \<Rightarrow> DatabaseType \<Rightarrow> nat \<Rightarrow> SchemaContext" where
  "parseSchema rawSchema dbType now =
     (let tableMap0 = foldl add_column_row []
            (case raw_schema rawSchema of None \<Rightarrow> [] | Some rs \<Rightarrow> rs);
          (tableMap1, rels) = foldl apply_constraint (tableMap0, [])
            (case raw_constraints rawSchema of None \<Rightarrow> [] | Some cs \<Rightarrow> cs)
      in \<lparr> tables = map snd tableMap1, relationships = rels,
           databaseType = dbType, cachedAt = now \<rparr>)"

text \<open>
  The schema cache (a \<open>NodeCache\<close>): the entries it holds, by key.  Expiry of entries
  with time is an effect of the library and not part of the calls below.
\<close>

type_synonym schema_cache = "(string \<times> SchemaContext) list"

record SchemaAnalyzer =
  cache :: schema_cache
  hits :: nat
  misses :: nat

definition databaseType_string :: "DatabaseType \<Rightarrow> string" where
  "databaseType_string d = (case d of postgres \<Rightarrow> ''postgres'' | mysql \<Rightarrow> ''mysql'')"

text \<open>\<open>`schema:${userId}:${databaseType}`\<close>\<close>

definition cacheKey :: "string \<Rightarrow> DatabaseType \<Rightarrow> string" where
  "cacheKey userId dbType = ''schema:'' @ userId @ '':'' @ databaseType_string dbType"

definition cache_get :: "schema_cache \<Rightarrow> string \<Rightarrow> SchemaContext option" where
  "cache_get c k = map_of c k"

definition cache_del :: "schema_cache \<Rightarrow> string \<Rightarrow> schema_cache" where
  "cache_del c k = filter (\<lambda>(k', v). k' \<noteq> k) c"

definition cache_set :: "schema_cache \<Rightarrow> string \<Rightarrow> SchemaContext \<Rightarrow> schema_cache" where
  "cache_set c k v = cache_del c k @ [(k, v)]"

text \<open>
  \<open>getSchemaContext\<close>; \<open>fetched\<close> is the outcome of \<open>getDatabaseSchema\<close>, which
  queries the tenant's database (\<open>None\<close> when it throws).
\<close>

definition getSchemaContext ::
  "SchemaAnalyzer \<Rightarrow> RawSchemaPayload option \<Rightarrow> nat \<Rightarrow> string \<Rightarrow> DatabaseType
     \<Rightarrow> SchemaContext option \<times> SchemaAnalyzer" where
  "getSchemaContext an fetched now userId dbType =
     (let key = cacheKey userId dbType in
      case cache_get (cache an) key of
        Some cached \<Rightarrow> (Some cached, an\<lparr> hits := hits an + 1 \<rparr>)
      | None \<Rightarrow>
          (case fetched of
             None \<Rightarrow> (None, an\<lparr> misses := misses an + 1 \<rparr>)
           | Some rawSchema \<Rightarrow>
               let parsed = parseSchema rawSchema dbType now in
               (Some parsed,
                an\<lparr> misses := misses an + 1, cache := cache_set (cache an) key parsed \<rparr>)))"

text \<open>
  \<open>invalidateUserCache\<close>: the loop over \<open>this.cache.keys()\<close> deletes every key that
  starts with \<open>`schema:${userId}:`\<close>.
\<close>

definition invalidateUserCache :: "SchemaAnalyzer \<Rightarrow> string \<Rightarrow> SchemaAnalyzer" where
  "invalidateUserCache an userId =
     (let prefix = ''schema:'' @ userId @ '':'' in
      an\<lparr> cache :=
          foldl (\<lambda>c key. if startsWith key prefix then cache_del c key else c)
            (cache an) (map fst (cache an)) \<rparr>)"

text \<open>
  Whether a table named \<open>tn\<close> with a column named \<open>cn\<close> is among the tables of a
  schema context.
\<close>

definition column_present :: "TableMetadata list \<Rightarrow> string \<Rightarrow> string \<Rightarrow> bool" where
  "column_present ts tn cn =
     list_ex (\<lambda>t. tableName t = tn \<and> list_ex (\<lambda>c. columnName c = cn) (columns t)) ts"

text \<open>
  The same for the map under construction, by key; and whether every table of the map
  is stored under its own name.
\<close>

definition entry_has_column :: "tableMap \<Rightarrow> string \<Rightarrow> string \<Rightarrow> bool" where
  "entry_has_column m tn cn =
     list_ex (\<lambda>(k, t). k = tn \<and> list_ex (\<lambda>c. columnName c = cn) (columns t)) m"

definition keyed_by_name :: "tableMap \<Rightarrow> bool" where
  "keyed_by_name m = list_all (\<lambda>(k, t). tableName t = k) m"

text \<open>Whether a relationship was copied from a given foreign-key constraint row.\<close>

definition copied_from :: "RelationshipMetadata \<Rightarrow> RawConstraintRow \<Rightarrow> bool" where
  "copied_from r con =
     (constraint_type con = ''FOREIGN KEY'' \<and>
      fromTable r = con_table_name con \<and>
      fromColumn r = con_column_name con \<and>
      toTable r \<noteq> [] \<and>
      referenced_table_name con = Some (toTable r) \<and>
      toColumn r = (case referenced_column_name con of
                      None \<Rightarrow> con_column_name con | Some rc \<Rightarrow> rc) \<and>
      rel_type r = ONE_TO_MANY)"

section \<open>Query validator: \<open>modules/ai/query-validator.js\<close>\<close>

subsection \<open>The regular expressions of the validator\<close>

text \<open>
  The character classes of the patterns: \<open>\s\<close>, \<open>\w\<close> (which decides \<open>\b\<close>),
  \<open>[a-zA-Z_]\<close>, \<open>[a-zA-Z0-9_]\<close> and \<open>[a-zA-Z0-9_.]\<close>.  Strings are byte strings:
  \<open>\s\<close> and \<open>trim\<close> see the ASCII white space, and the case mappings change the ASCII
  letters only.
\<close>

definition is_space :: "char \<Rightarrow> bool" where
  "is_space c = (let n = (of_char c :: nat) in n = 32 \<or> (9 \<le> n \<and> n \<le> 13))"

definition is_alpha :: "char \<Rightarrow> bool" where
  "is_alpha c = (let n = (of_char c :: nat) in (65 \<le> n \<and> n \<le> 90) \<or> (97 \<le> n \<and> n \<le> 122))"

definition is_digit :: "char \<Rightarrow> bool" where
  "is_digit c = (let n = (of_char c :: nat) in 48 \<le> n \<and> n \<le> 57)"

definition is_ident_start :: "char \<Rightarrow> bool" where
  "is_ident_start c = (is_alpha c \<or> c = CHR ''_'')"

definition is_ident_char :: "char \<Rightarrow> bool" where
  "is_ident_char c = (is_alpha c \<or> is_digit c \<or> c = CHR ''_'')"

definition is_ident_dot :: "char \<Rightarrow> bool" where
  "is_ident_dot c = (is_ident_char c \<or> c = CHR ''.'')"

text \<open>
  The pattern language that the validator uses: literals, classes, \<open>[\s\S]\<close>, \<open>\b\<close>,
  \<open>$\<close>, sequence, alternative, greedy \<open>*\<close> and the negative lookahead \<open>(?!...)\<close>.
\<close>

datatype rx =
    Eps
  | Chr char
  | Cls "char \<Rightarrow> bool"
  | AnyChar
  | WordB
  | AtEnd
  | Seq rx rx
  | Alt rx rx
  | Star rx
  | NotAhead rx

definition Plus :: "rx \<Rightarrow> rx" where
  "Plus r = Seq r (Star r)"

definition seq :: "rx list \<Rightarrow> rx" where
  "seq rs = foldr Seq rs Eps"

definition lit :: "string \<Rightarrow> rx" where
  "lit s = seq (map Chr s)"

definition ident :: rx where
  "ident = Seq (Cls is_ident_start) (Star (Cls is_ident_char))"

text \<open>
  A position in the input: the character before it, if any, and the input that remains.
  \<open>rx_ends ic r pos\<close> lists the positions at which a match of \<open>r\<close> that starts at
  \<open>pos\<close> can end, in the order in which a backtracking matcher tries them (the first
  alternative first, the longest repetition first); \<open>ic\<close> is the flag \<open>i\<close>.  An
  iteration of \<open>*\<close> that consumes nothing is not taken.
\<close>

type_synonym pos = "char option \<times> string"

definition same_char :: "bool \<Rightarrow> char \<Rightarrow> char \<Rightarrow> bool" where
  "same_char ic x c = (if ic then upperChar x = upperChar c else x = c)"

definition is_word :: "char \<Rightarrow> bool" where
  "is_word c = is_ident_char c"

definition at_word_boundary :: "pos \<Rightarrow> bool" where
  "at_word_boundary p =
     ((case fst p of None \<Rightarrow> False | Some c \<Rightarrow> is_word c)
      \<noteq> (case snd p of [] \<Rightarrow> False | c # _ \<Rightarrow> is_word c))"

primrec star_ends :: "(pos \<Rightarrow> pos list) \<Rightarrow> nat \<Rightarrow> pos \<Rightarrow> pos list" where
  "star_ends step 0 p = [p]"
| "star_ends step (Suc n) p =
     concat (map (star_ends step n)
               (filter (\<lambda>q. length (snd q) < length (snd p)) (step p))) @ [p]"

primrec rx_ends :: "bool \<Rightarrow> rx \<Rightarrow> pos \<Rightarrow> pos list" where
  "rx_ends ic Eps p = [p]"
| "rx_ends ic (Chr c) p =
     (case snd p of [] \<Rightarrow> [] | x # xs \<Rightarrow> if same_char ic x c then [(Some x, xs)] else [])"
| "rx_ends ic (Cls P) p =
     (case snd p of [] \<Rightarrow> [] | x # xs \<Rightarrow> if P x then [(Some x, xs)] else [])"
| "rx_ends ic AnyChar p = (case snd p of [] \<Rightarrow> [] | x # xs \<Rightarrow> [(Some x, xs)])"
| "rx_ends ic WordB p = (if at_word_boundary p then [p] else [])"
| "rx_ends ic AtEnd p = (if snd p = [] then [p] else [])"
| "rx_ends ic (Seq a b) p = concat (map (rx_ends ic b) (rx_ends ic a p))"
| "rx_ends ic (Alt a b) p = rx_ends ic a p @ rx_ends ic b p"
| "rx_ends ic (Star a) p = star_ends (rx_ends ic a) (length (snd p)) p"
| "rx_ends ic (NotAhead a) p = (if rx_ends ic a p = [] then [p] else [])"

text \<open>
  \<open>regex.test(s)\<close> on a fresh pattern: is there a match at some position.
\<close>

fun rx_test_from :: "bool \<Rightarrow> rx \<Rightarrow> char option \<Rightarrow> string \<Rightarrow> bool" where
  "rx_test_from ic r prev [] = (rx_ends ic r (prev, []) \<noteq> [])"
| "rx_test_from ic r prev (x # xs) =
     (rx_ends ic r (prev, x # xs) \<noteq> [] \<or> rx_test_from ic r (Some x) xs)"

definition rx_test :: "bool \<Rightarrow> rx \<Rightarrow> string \<Rightarrow> bool" where
  "rx_test ic r s = rx_test_from ic r None s"

text \<open>
  \<open>s.match(regex)\<close> with the flag \<open>g\<close>: the matched substrings from left to right,
  each search resuming where the previous match ended (one character further after an
  empty match); \<open>[]\<close> stands for the \<open>null\<close> that the code replaces by \<open>[]\<close>.
\<close>

function rx_match_from :: "bool \<Rightarrow> rx \<Rightarrow> char option \<Rightarrow> string \<Rightarrow> string list" where
  "rx_match_from ic r prev s =
     (case rx_ends ic r (prev, s) of
        q # _ \<Rightarrow>
          if length (snd q) < length s
          then take (length s - length (snd q)) s # rx_match_from ic r (fst q) (snd q)
          else (case s of [] \<Rightarrow> [[]] | x # xs \<Rightarrow> [] # rx_match_from ic r (Some x) xs)
      | [] \<Rightarrow> (case s of [] \<Rightarrow> [] | x # xs \<Rightarrow> rx_match_from ic r (Some x) xs))"
  by pat_completeness auto
termination
  by (relation "measure (\<lambda>(ic, r, prev, s). length s)") auto

declare rx_match_from.simps [simp del]

definition rx_match_all :: "bool \<Rightarrow> rx \<Rightarrow> string \<Rightarrow> string list" where
  "rx_match_all ic r s = rx_match_from ic r None s"

text \<open>\<open>s.replace(regex, '')\<close> without the flag \<open>g\<close>: the first match is removed.\<close>

fun rx_remove_from :: "bool \<Rightarrow> rx \<Rightarrow> char option \<Rightarrow> string \<Rightarrow> string" where
  "rx_remove_from ic r prev [] = []"
| "rx_remove_from ic r prev (x # xs) =
     (case rx_ends ic r (prev, x # xs) of
        q # _ \<Rightarrow> snd q
      | [] \<Rightarrow> x # rx_remove_from ic r (Some x) xs)"

definition rx_remove_first :: "bool \<Rightarrow> rx \<Rightarrow> string \<Rightarrow> string" where
  "rx_remove_first ic r s = rx_remove_from ic r None s"

subsection \<open>String operations of the validator\<close>

definition trim :: "string \<Rightarrow> string" where
  "trim s = rev (dropWhile is_space (rev (dropWhile is_space s)))"

fun includes_str :: "string \<Rightarrow> string \<Rightarrow> bool" where
  "includes_str [] sub = (sub = [])"
| "includes_str (x # xs) sub = (startsWith (x # xs) sub \<or> includes_str xs sub)"

definition endsWith :: "string \<Rightarrow> string \<Rightarrow> bool" where
  "endsWith s suf = startsWith (rev s) (rev suf)"

definition count_char :: "char \<Rightarrow> string \<Rightarrow> nat" where
  "count_char c s = length (filter (\<lambda>x. x = c) s)"

text \<open>\<open>s.split(/\s+/)\<close>\<close>

function split_spaces :: "string \<Rightarrow> string list" where
  "split_spaces [] = [[]]"
| "split_spaces (c # cs) =
     (if is_space c then [] # split_spaces (dropWhile is_space cs)
      else (case split_spaces cs of [] \<Rightarrow> [[c]] | f # fs \<Rightarrow> (c # f) # fs))"
  by pat_completeness auto
termination
  by (relation "measure length") (auto simp: le_imp_less_Suc length_dropWhile_le)

text \<open>The decimal digits of a number, as a template literal prints it.\<close>

function showNat :: "nat \<Rightarrow> string" where
  "showNat n =
     (if n < 10 then [char_of (48 + n)] else showNat (n div 10) @ [char_of (48 + n mod 10)])"
  by pat_completeness auto
termination
  by (relation "measure id") auto

declare showNat.simps [simp del]

text \<open>\<open>xs[i]\<close> of an array, \<open>undefined\<close> out of range.\<close>

definition at_index :: "'a list \<Rightarrow> nat \<Rightarrow> 'a option" where
  "at_index xs i = (if i < length xs then Some (xs ! i) else None)"

subsection \<open>The validator\<close>

record ValidationResult =
  isValid :: bool
  errors :: "string list"
  warnings :: "string list"
  suggestedIndexes :: "string list option"
  result_indexes :: "string list option"

definition columnExists :: "string \<Rightarrow> string \<Rightarrow> SchemaContext \<Rightarrow> bool" where
  "columnExists tName cName schemaContext =
     (case find (\<lambda>item. toLowerCase (tableName item) = toLowerCase tName) (tables schemaContext) of
        None \<Rightarrow> False
      | Some table \<Rightarrow>
          list_ex (\<lambda>column. toLowerCase (columnName column) = toLowerCase cName) (columns table))"

text \<open>\<open>!table?.indexes?.length\<close> holds without a table, without indexes and for no index.\<close>

definition hasIndex :: "string \<Rightarrow> string \<Rightarrow> SchemaContext \<Rightarrow> bool" where
  "hasIndex tName cName schemaContext =
     (case find (\<lambda>item. toLowerCase (tableName item) = toLowerCase tName) (tables schemaContext) of
        None \<Rightarrow> False
      | Some table \<Rightarrow>
          (case indexes table of
             None \<Rightarrow> False
           | Some ixs \<Rightarrow>
               if length ixs = 0 then False
               else list_ex (\<lambda>index. list_ex (\<lambda>indexedColumn.
                      toLowerCase indexedColumn = toLowerCase cName) (idx_columns index)) ixs))"

text \<open>
  Each pass pushes to the arrays it is given; the model passes them in and returns them.
\<close>

definition checkBasicSyntax ::
  "string \<Rightarrow> DatabaseType \<Rightarrow> string list \<times> string list \<Rightarrow> string list \<times> string list" where
  "checkBasicSyntax query dbType acc =
     (let (errs, warns) = acc;
          trimmed = trim query
      in if trimmed = [] then (errs @ [''Query cannot be empty''], warns)
         else
           let openParens = count_char CHR ''('' query;
               closeParens = count_char CHR '')'' query;
               errs1 = (if openParens \<noteq> closeParens
                        then errs @ [''Mismatched parentheses: '' @ showNat openParens
                                      @ '' open, '' @ showNat closeParens @ '' close'']
                        else errs);
               semicolonCount = count_char CHR '';'' query;
               errs2 = (if semicolonCount > 1
                        then errs1 @ [''Multiple statements are not allowed''] else errs1);
               warns1 = (if \<not> semicolonCount > 1 \<and> endsWith trimmed '';''
                         then warns @ [''Trailing semicolon detected; submit a single statement without separators'']
                         else warns);
               upper = toUpperCase trimmed;
               validStarts = [''SELECT'', ''INSERT'', ''UPDATE'', ''DELETE'', ''WITH'',
                              ''CREATE'', ''ALTER''];
               errs3 = (if \<not> list_ex (\<lambda>keyword. startsWith upper keyword) validStarts
                        then errs2 @ [''Unsupported or invalid SQL statement type'']
                        else errs2)
           in (errs3, warns1))"

text \<open>\<open>/(?:FROM|JOIN|INTO|UPDATE)\s+([a-zA-Z_][a-zA-Z0-9_]*)/gi\<close>\<close>

definition tableRef_rx :: rx where
  "tableRef_rx =
     seq [Alt (lit ''FROM'') (Alt (lit ''JOIN'') (Alt (lit ''INTO'') (lit ''UPDATE''))),
          Plus (Cls is_space), ident]"

text \<open>\<open>/[a-zA-Z_][a-zA-Z0-9_]*\.[a-zA-Z_][a-zA-Z0-9_]*/g\<close>\<close>

definition qualifiedRef_rx :: rx where
  "qualifiedRef_rx = seq [ident, Chr CHR ''.'', ident]"

text \<open>
  A reference matched by \<open>qualifiedRef_rx\<close> contains a dot, so \<open>split('.')\<close> yields
  both the table and the column.
\<close>

definition validateAgainstSchema ::
  "string \<Rightarrow> SchemaContext \<Rightarrow> string list \<times> string list \<Rightarrow> string list \<times> string list" where
  "validateAgainstSchema query schemaContext acc =
     (let (errs, warns) = acc;
          tableNames = map (\<lambda>table. toLowerCase (tableName table)) (tables schemaContext);
          tableRefs = rx_match_all True tableRef_rx query;
          errs1 = foldl (\<lambda>es ref.
                    case at_index (split_spaces ref) 1 of
                      None \<Rightarrow> es
                    | Some t \<Rightarrow>
                        let table = toLowerCase t in
                        if table \<noteq> [] \<and> table \<notin> set tableNames
                        then es @ [''Table '' @ [CHR 0x27] @ table @ [CHR 0x27]
                                    @ '' does not exist in schema'']
                        else es) errs tableRefs;
          qualifiedColumnRefs = rx_match_all False qualifiedRef_rx query;
          warns1 = foldl (\<lambda>ws qualifiedRef.
                     case splitOn CHR ''.'' qualifiedRef of
                       table # column # _ \<Rightarrow>
                         if \<not> columnExists table column schemaContext
                         then ws @ [''Column reference '' @ [CHR 0x27] @ qualifiedRef @ [CHR 0x27]
                                     @ '' could not be confirmed'']
                         else ws
                     | _ \<Rightarrow> ws) warns qualifiedColumnRefs
      in (errs1, warns1))"

text \<open>
  The five suspicious patterns, all with the flags \<open>gi\<close>:
  \<open>/(?:'|")\s*;\s*DROP\s+TABLE/\<close>, \<open>/\bUNION\s+SELECT\b/\<close>,
  \<open>/\bOR\s+1\s*=\s*1\b/\<close>, \<open>/\bxp_cmdshell\b/\<close>, \<open>/\bEXEC\s*\(/\<close>.
  The array of patterns is built anew in every call, so each \<open>test\<close> starts at index 0.
\<close>

definition suspiciousPatterns :: "rx list" where
  "suspiciousPatterns =
     [seq [Alt (Chr (CHR 0x27)) (Chr (CHR 0x22)), Star (Cls is_space), Chr CHR '';'',
           Star (Cls is_space), lit ''DROP'', Plus (Cls is_space), lit ''TABLE''],
      seq [WordB, lit ''UNION'', Plus (Cls is_space), lit ''SELECT'', WordB],
      seq [WordB, lit ''OR'', Plus (Cls is_space), Chr CHR ''1'', Star (Cls is_space),
           Chr CHR ''='', Star (Cls is_space), Chr CHR ''1'', WordB],
      seq [WordB, lit ''xp_cmdshell'', WordB],
      seq [WordB, lit ''EXEC'', Star (Cls is_space), Chr CHR ''('']]"

definition checkSecurityIssues ::
  "string \<Rightarrow> string list \<times> string list \<Rightarrow> string list \<times> string list" where
  "checkSecurityIssues query acc =
     (let (errs, warns) = acc;
          warns1 = (if list_ex (\<lambda>pattern. rx_test True pattern query) suspiciousPatterns
                    then warns @ [''Potential SQL injection pattern detected''] else warns);
          warns2 = (if includes_str query ''--'' \<or> includes_str query ''/*''
                    then warns1 @ [''Query contains comments; review for hidden logic'']
                    else warns1)
      in (errs, warns2))"

text \<open>
  \<open>/DELETE\s+FROM\s+[a-zA-Z_][a-zA-Z0-9_]*/i\<close>, \<open>/\bWHERE\b/i\<close> and
  \<open>/UPDATE\s+[a-zA-Z_][a-zA-Z0-9_]*/i\<close>
\<close>

definition deleteFrom_rx :: rx where
  "deleteFrom_rx = seq [lit ''DELETE'', Plus (Cls is_space), lit ''FROM'', Plus (Cls is_space), ident]"

definition where_rx :: rx where
  "where_rx = seq [WordB, lit ''WHERE'', WordB]"

definition update_rx :: rx where
  "update_rx = seq [lit ''UPDATE'', Plus (Cls is_space), ident]"

definition checkDangerousOperations :: "string \<Rightarrow> string list \<Rightarrow> string list" where
  "checkDangerousOperations query warns =
     (let upper = toUpperCase query;
          warns1 = (if rx_test True deleteFrom_rx query \<and> \<not> rx_test True where_rx query
                    then warns @ [''DELETE without WHERE will affect all rows''] else warns);
          warns2 = (if rx_test True update_rx query \<and> \<not> rx_test True where_rx query
                    then warns1 @ [''UPDATE without WHERE will affect all rows''] else warns1);
          warns3 = (if includes_str upper ''DROP ''
                    then warns2 @ [''DROP detected; this operation is destructive''] else warns2);
          warns4 = (if includes_str upper ''TRUNCATE ''
                    then warns3 @ [''TRUNCATE detected; this operation removes all table rows'']
                    else warns3)
      in warns4)"

text \<open>
  \<open>/SELECT\s+\*/i\<close>, \<open>/JOIN\s+[a-zA-Z_][a-zA-Z0-9_]*(?![\s\S]*\bON\b)/i\<close>,
  \<open>/\bCROSS\s+JOIN\b/i\<close>, \<open>/\bWHERE\s+([a-zA-Z_][a-zA-Z0-9_.]*)\s*=/gi\<close>, and the
  two patterns that strip a match of the last one: \<open>/\bWHERE\s+/i\<close> and \<open>/\s*=$/\<close>.
\<close>

definition selectStar_rx :: rx where
  "selectStar_rx = seq [lit ''SELECT'', Plus (Cls is_space), Chr CHR ''*'']"

definition joinNoOn_rx :: rx where
  "joinNoOn_rx =
     seq [lit ''JOIN'', Plus (Cls is_space), ident,
          NotAhead (seq [Star AnyChar, WordB, lit ''ON'', WordB])]"

definition crossJoin_rx :: rx where
  "crossJoin_rx = seq [WordB, lit ''CROSS'', Plus (Cls is_space), lit ''JOIN'', WordB]"

definition whereEq_rx :: rx where
  "whereEq_rx =
     seq [WordB, lit ''WHERE'', Plus (Cls is_space),
          Cls is_ident_start, Star (Cls is_ident_dot), Star (Cls is_space), Chr CHR ''='']"

definition wherePrefix_rx :: rx where
  "wherePrefix_rx = seq [WordB, lit ''WHERE'', Plus (Cls is_space)]"

definition eqSuffix_rx :: rx where
  "eqSuffix_rx = seq [Star (Cls is_space), Chr CHR ''='', AtEnd]"

text \<open>
  The body of the loop over the \<open>WHERE column =\<close> matches.  A column reference
  without a dot gives \<open>[null, columnRef]\<close>, and \<open>!tableName\<close> then skips the match;
  an empty table or column name is skipped as well.
\<close>

definition suggest_for_match :: "SchemaContext \<Rightarrow> string list \<Rightarrow> string \<Rightarrow> string list" where
  "suggest_for_match schemaContext suggested m =
     (let columnRef = trim (rx_remove_first False eqSuffix_rx (rx_remove_first True wherePrefix_rx m));
          parts = (if includes_str columnRef ''.''
                   then (let fs = splitOn CHR ''.'' columnRef in (at_index fs 0, at_index fs 1))
                   else (None, Some columnRef))
      in case parts of
           (Some tName, Some cName) \<Rightarrow>
             if tName = [] \<or> cName = [] then suggested
             else if \<not> hasIndex tName cName schemaContext
             then suggested @ [''CREATE INDEX idx_'' @ tName @ ''_'' @ cName @ '' ON '' @ tName
                                @ ''('' @ cName @ '');'']
             else suggested
         | _ \<Rightarrow> suggested)"

definition analyzePerformance ::
  "string \<Rightarrow> SchemaContext \<Rightarrow> string list \<times> string list \<Rightarrow> string list \<times> string list" where
  "analyzePerformance query schemaContext acc =
     (let (suggested, warns) = acc;
          warns1 = (if rx_test True selectStar_rx query
                    then warns @ [''SELECT * detected; prefer explicit columns for better performance'']
                    else warns);
          warns2 = (if rx_test True joinNoOn_rx query
                    then warns1 @ [''JOIN may be missing an ON clause, risking cartesian products'']
                    else warns1);
          warns3 = (if rx_test True crossJoin_rx query
                    then warns2 @ [''CROSS JOIN detected; verify cartesian product is intended'']
                    else warns2);
          whereEqMatches = rx_match_all True whereEq_rx query
      in (foldl (suggest_for_match schemaContext) suggested whereEqMatches, warns3))"

definition validateQuery :: "string \<Rightarrow> DatabaseType \<Rightarrow> SchemaContext \<Rightarrow> ValidationResult" where
  "validateQuery query dbType schemaContext =
     (let acc1 = checkBasicSyntax query dbType ([], []);
          acc2 = validateAgainstSchema query schemaContext acc1;
          (errs, warns3) = checkSecurityIssues query acc2;
          warns4 = checkDangerousOperations query warns3;
          (suggested, warns5) = analyzePerformance query schemaContext ([], warns4)
      in \<lparr> isValid = (length errs = 0), errors = errs, warnings = warns5,
           suggestedIndexes = (if length suggested \<noteq> 0 then Some suggested else None),
           result_indexes = (if length suggested \<noteq> 0 then Some suggested else None) \<rparr>)"

section \<open>Concrete inputs\<close>

definition empty_context :: SchemaContext where
  "empty_context = \<lparr> tables = [], relationships = [], databaseType = postgres, cachedAt = 0 \<rparr>"

text \<open>
  The catalogue rows of a database with tables \<open>users(id)\<close> and
  \<open>orders(id, user_id)\<close> and a foreign key from \<open>orders.user_id\<close> to \<open>users\<close>, as
  the constraint queries of \<open>getDatabaseSchema\<close> return them (they select no
  \<open>referenced_column_name\<close>).
\<close>

definition shop_payload :: RawSchemaPayload where
  "shop_payload =
     \<lparr> raw_schema = Some
         [\<lparr> table_name = ''orders'', column_name = ''id'', data_type = ''uuid'',
            is_nullable = Str ''NO'' \<rparr>,
          \<lparr> table_name = ''orders'', column_name = ''user_id'', data_type = ''uuid'',
            is_nullable = Str ''NO'' \<rparr>,
          \<lparr> table_name = ''users'', column_name = ''id'', data_type = ''uuid'',
            is_nullable = Str ''NO'' \<rparr>],
       raw_constraints = Some
         [\<lparr> con_table_name = ''orders'', con_column_name = ''user_id'',
            constraint_type = ''FOREIGN KEY'', referenced_table_name = Some ''users'',
            referenced_column_name = None \<rparr>] \<rparr>"

text \<open>
  A manager that already holds a Postgres pool for the user \<open>u1\<close>, one that holds a
  MySQL adapter for the user \<open>u2\<close>, and drivers that answer every query with the same
  reply.
\<close>

definition u1_pool :: pool_handle where
  "u1_pool = \<lparr> handle_id = 0, handle_dialect = Postgres,
       connectionString = js ''postgres://db'',
       opt_max = Some 10, opt_idleTimeoutMillis = Some 30000,
       opt_connectionTimeoutMillis = Some 5000, error_listener = Some ''u1'' \<rparr>"

definition u1_manager :: ConnectionManager where
  "u1_manager = \<lparr> pools = [''u1'' \<mapsto> u1_pool], next_handle = 1, closing = [] \<rparr>"






definition mysql_token :: string where
  "mysql_token =
     ''01010101010101010101010101010101:8181818181818181818181818181817d:6a717a7b673622216b72''"

text \<open>
  The schema of the validator's own test: \<open>users(id, email)\<close> with an index on \<open>id\<close>
  and none on \<open>email\<close>.
\<close>

definition users_context :: SchemaContext where
  "users_context =
     \<lparr> tables =
         [\<lparr> tableName = ''users'',
            columns =
              [\<lparr> columnName = ''id'', dataType = ''uuid'', isNullable = False, isUnique = False,
                 isForeignKey = False, foreignKeyReference = None \<rparr>,
               \<lparr> columnName = ''email'', dataType = ''text'', isNullable = False,
                 isUnique = False, isForeignKey = False, foreignKeyReference = None \<rparr>],
            primaryKey = Some [''id''],
            indexes = Some [\<lparr> indexName = ''idx_users_id'', idx_columns = [''id''],
                              idx_isUnique = True \<rparr>] \<rparr>],
       relationships = [], databaseType = postgres, cachedAt = 0 \<rparr>"

text \<open>\<open>SELECT * FROM users WHERE email = 'x'\<close> and its table-qualified form.\<close>

definition select_by_email :: string where
  "select_by_email = ''SELECT * FROM users WHERE email = '' @ [CHR 0x27] @ ''x'' @ [CHR 0x27]"

definition select_by_users_email :: string where
  "select_by_users_email =
     ''SELECT * FROM users WHERE users.email = '' @ [CHR 0x27] @ ''x'' @ [CHR 0x27]"

section \<open>Properties of the credential vault\<close>

subsection \<open>Hex fields and the token\<close>

lemma hexVal_hexDigit: "n < 16 \<Longrightarrow> hexVal (hexDigit n) = Some n"
  by (auto simp: hexVal_def hexDigit_def Let_def)

lemma byte_nibbles: "unat (b :: 8 word) div 16 < 16" "unat b mod 16 < 16"
proof -
  have "unat b < 256"
    using unsigned_less [of b, where ?'a = nat] by simp
  then show "unat b div 16 < 16" and "unat b mod 16 < 16"
    by arith+
qed

lemma fromHex_toHex: "fromHex (toHex bs) = bs"
proof (induction bs)
  case Nil
  then show ?case by (simp add: toHex_def)
next
  case (Cons b bs)
  have "word_of_nat (unat b div 16 * 16 + unat b mod 16) = b"
    by simp
  with Cons show ?case
    by (simp add: toHex_def hexVal_hexDigit byte_nibbles)
qed

lemma length_toHex: "length (toHex bs) = 2 * length bs"
  by (induction bs) (simp_all add: toHex_def)

lemma hexDigit_not_colon: "n < 16 \<Longrightarrow> hexDigit n \<noteq> CHR '':''"
  using hexVal_hexDigit [of n] by (auto simp: hexVal_def)

lemma colon_notin_toHex: "CHR '':'' \<notin> set (toHex bs)"
proof (induction bs)
  case Nil
  then show ?case by (simp add: toHex_def)
next
  case (Cons b bs)
  from Cons hexDigit_not_colon [OF byte_nibbles(1) [of b]]
    hexDigit_not_colon [OF byte_nibbles(2) [of b]]
  show ?case
    by (auto simp: toHex_def)
qed

lemma splitOn_no_sep: "c \<notin> set xs \<Longrightarrow> splitOn c xs = [xs]"
  by (induction xs) auto

lemma splitOn_append_sep:
  "c \<notin> set xs \<Longrightarrow> splitOn c (xs @ c # ys) = xs # splitOn c ys"
  by (induction xs) auto

lemma splitOn_token:
  "splitOn CHR '':'' (toHex a @ CHR '':'' # toHex b @ CHR '':'' # toHex c)
     = [toHex a, toHex b, toHex c]"
  by (simp add: splitOn_append_sep splitOn_no_sep colon_notin_toHex)

text \<open>Hex decoding drops whatever follows the first character that is not a hex digit.\<close>

lemma fromHex_ignores_tail:
  assumes "hexVal c = None"
  shows "fromHex (toHex bs @ c # rest) = bs"
proof (induction bs)
  case Nil
  from assms show ?case
    by (cases rest) (simp_all add: toHex_def)
next
  case (Cons b bs)
  have "word_of_nat (unat b div 16 * 16 + unat b mod 16) = b"
    by simp
  with Cons show ?case
    by (simp add: toHex_def hexVal_hexDigit byte_nibbles)
qed

subsection \<open>The key stream and the tag\<close>

lemma ctr_from_twice: "ctr_from ks i (ctr_from ks i bs) = bs"
  by (induction bs arbitrary: i) (simp_all add: xor.assoc)

lemma length_tag_bytes: "length (tag_bytes w) = 16"
  by (simp add: tag_bytes_def)

lemma take_tag_bytes: "take (length (tag_bytes w)) (tag_bytes v) = tag_bytes v"
  by (simp add: length_tag_bytes)

lemma valid_full_tag: "valid_tag_length (length (tag_bytes w))"
  by (simp add: length_tag_bytes valid_tag_length_def)

subsection \<open>UTF-8\<close>

lemma unit_bound: "unat (u :: 16 word) < 65536"
  using unsigned_less [of u, where ?'a = nat] by simp

lemma mod_4096: "(n :: nat) mod 4096 = n div 64 mod 64 * 64 + n mod 64"
  using mod_mult2_eq [of n 64 64] by simp

lemma mod_262144: "(n :: nat) mod 262144 = n div 4096 mod 64 * 4096 + n mod 4096"
  using mod_mult2_eq [of n 4096 64] by simp

lemma three_digits: "(cp :: nat) div 4096 * 4096 + cp div 64 mod 64 * 64 + cp mod 64 = cp"
  using div_mult_mod_eq [of cp 4096] by (simp add: mod_4096)

lemma four_digits:
  "(cp :: nat) div 262144 * 262144 + cp div 4096 mod 64 * 4096 + cp div 64 mod 64 * 64
     + cp mod 64 = cp"
  using div_mult_mod_eq [of cp 262144] by (simp add: mod_262144 mod_4096)

lemma decode_two:
  assumes "2 \<le> h" "h \<le> 31" "l \<le> 63"
  shows "scalars_of_utf8 ((0xC0 + h) # (0x80 + l) # rest)
           = map_option ((#) (h * 64 + l)) (scalars_of_utf8 rest)"
  using assms by (simp add: is_cont_def)

lemma decode_three:
  assumes "a \<le> 15" "b \<le> 63" "c \<le> 63" "0x800 \<le> a * 4096 + b * 64 + c"
    and "\<not> (0xD800 \<le> a * 4096 + b * 64 + c \<and> a * 4096 + b * 64 + c \<le> 0xDFFF)"
  shows "scalars_of_utf8 ((0xE0 + a) # (0x80 + b) # (0x80 + c) # rest)
           = map_option ((#) (a * 4096 + b * 64 + c)) (scalars_of_utf8 rest)"
  using assms by (simp add: is_cont_def Let_def)

lemma decode_four:
  assumes "a \<le> 4" "b \<le> 63" "c \<le> 63" "d \<le> 63"
    and "0x10000 \<le> a * 262144 + b * 4096 + c * 64 + d"
    and "a * 262144 + b * 4096 + c * 64 + d \<le> 0x10FFFF"
  shows "scalars_of_utf8 ((0xF0 + a) # (0x80 + b) # (0x80 + c) # (0x80 + d) # rest)
           = map_option ((#) (a * 262144 + b * 4096 + c * 64 + d)) (scalars_of_utf8 rest)"
  using assms by (simp add: is_cont_def Let_def)

lemma scalars_of_utf8_scalar:
  assumes "valid_scalar cp"
  shows "scalars_of_utf8 (utf8_of_scalar cp @ rest) = map_option ((#) cp) (scalars_of_utf8 rest)"
proof -
  consider (one) "cp < 0x80" | (two) "0x80 \<le> cp" "cp < 0x800"
    | (three) "0x800 \<le> cp" "cp < 0x10000" | (four) "0x10000 \<le> cp"
    by linarith
  then show ?thesis
  proof cases
    case one
    then show ?thesis by (simp add: utf8_of_scalar_def)
  next
    case two
    then have enc: "utf8_of_scalar cp = [0xC0 + cp div 64, 0x80 + cp mod 64]"
      by (simp add: utf8_of_scalar_def)
    from two have "2 \<le> cp div 64" "cp div 64 \<le> 31" "cp mod 64 \<le> 63"
      by arith+
    from decode_two [OF this, of rest] show ?thesis
      unfolding enc by simp
  next
    case three
    then have enc: "utf8_of_scalar cp = [0xE0 + cp div 4096, 0x80 + cp div 64 mod 64, 0x80 + cp mod 64]"
      by (simp add: utf8_of_scalar_def)
    have cp: "cp div 4096 * 4096 + cp div 64 mod 64 * 64 + cp mod 64 = cp"
      by (rule three_digits)
    from three have "cp div 4096 \<le> 15" "cp div 64 mod 64 \<le> 63" "cp mod 64 \<le> 63"
      by arith+
    moreover from three assms
    have "0x800 \<le> cp div 4096 * 4096 + cp div 64 mod 64 * 64 + cp mod 64"
      and "\<not> (0xD800 \<le> cp div 4096 * 4096 + cp div 64 mod 64 * 64 + cp mod 64
            \<and> cp div 4096 * 4096 + cp div 64 mod 64 * 64 + cp mod 64 \<le> 0xDFFF)"
      unfolding cp by (simp_all add: valid_scalar_def)
    ultimately have "scalars_of_utf8
        ((0xE0 + cp div 4096) # (0x80 + cp div 64 mod 64) # (0x80 + cp mod 64) # rest)
      = map_option ((#) (cp div 4096 * 4096 + cp div 64 mod 64 * 64 + cp mod 64))
          (scalars_of_utf8 rest)"
      by (rule decode_three)
    then show ?thesis
      unfolding enc cp by simp
  next
    case four
    with assms have top: "cp < 0x110000"
      by (simp add: valid_scalar_def)
    from four have enc: "utf8_of_scalar cp
        = [0xF0 + cp div 262144, 0x80 + cp div 4096 mod 64, 0x80 + cp div 64 mod 64,
           0x80 + cp mod 64]"
      by (simp add: utf8_of_scalar_def)
    have cp: "cp div 262144 * 262144 + cp div 4096 mod 64 * 4096 + cp div 64 mod 64 * 64
        + cp mod 64 = cp"
      by (rule four_digits)
    from top have "cp div 262144 \<le> 4" "cp div 4096 mod 64 \<le> 63" "cp div 64 mod 64 \<le> 63"
      "cp mod 64 \<le> 63"
      by arith+
    moreover from four top
    have "0x10000 \<le> cp div 262144 * 262144 + cp div 4096 mod 64 * 4096
        + cp div 64 mod 64 * 64 + cp mod 64"
      and "cp div 262144 * 262144 + cp div 4096 mod 64 * 4096 + cp div 64 mod 64 * 64
        + cp mod 64 \<le> 0x10FFFF"
      unfolding cp by simp_all
    ultimately have "scalars_of_utf8
        ((0xF0 + cp div 262144) # (0x80 + cp div 4096 mod 64) # (0x80 + cp div 64 mod 64)
           # (0x80 + cp mod 64) # rest)
      = map_option ((#) (cp div 262144 * 262144 + cp div 4096 mod 64 * 4096
           + cp div 64 mod 64 * 64 + cp mod 64)) (scalars_of_utf8 rest)"
      by (rule decode_four)
    then show ?thesis
      unfolding enc cp by simp
  qed
qed

lemma scalars_of_utf8_concat:
  "list_all valid_scalar cps \<Longrightarrow> scalars_of_utf8 (concat (map utf8_of_scalar cps)) = Some cps"
  by (induction cps) (simp_all add: scalars_of_utf8_scalar)

lemma valid_scalar_values: "list_all valid_scalar (scalar_values s)"
proof (induction s rule: scalar_values.induct)
  case (1 u v rest)
  have "unat u < 65536" "unat v < 65536"
    by (rule unit_bound)+
  with 1 show ?case
    by (auto simp: valid_scalar_def is_high_def is_low_def)
next
  case (2 u)
  have "unat u < 65536"
    by (rule unit_bound)
  then show ?case
    by (auto simp: valid_scalar_def is_high_def is_low_def)
next
  case 3
  then show ?case by simp
qed

lemma utf8_bytes_small: "valid_scalar cp \<Longrightarrow> \<forall>b \<in> set (utf8_of_scalar cp). b < 256"
  unfolding valid_scalar_def utf8_of_scalar_def by auto

lemma unat_bytes_of_nats:
  "\<forall>b \<in> set xs. b < 256 \<Longrightarrow> map unat (map word_of_nat xs :: 8 word list) = xs"
  by (induction xs) (simp_all add: unsigned_of_nat take_bit_nat_eq_self)

text \<open>What comes back from the encoding: the string with every unpaired surrogate replaced.\<close>

lemma utf8_decode_encode:
  "utf8_decode repair (utf8_encode s) = concat (map units_of_scalar (scalar_values s))"
proof -
  have "\<forall>b \<in> set (concat (map utf8_of_scalar (scalar_values s))). b < 256"
    using valid_scalar_values [of s] utf8_bytes_small
    by (auto simp: list_all_iff)
  then have "map unat (utf8_encode s) = concat (map utf8_of_scalar (scalar_values s))"
    unfolding utf8_encode_def by (rule unat_bytes_of_nats)
  then show ?thesis
    by (simp add: utf8_decode_def scalars_of_utf8_concat valid_scalar_values)
qed

lemma units_of_scalar_values: "well_formed s \<Longrightarrow> concat (map units_of_scalar (scalar_values s)) = s"
proof (induction s rule: scalar_values.induct)
  case (1 u v rest)
  show ?case
  proof (cases "is_high u")
    case True
    with "1.prems" have low: "is_low v" and wf: "well_formed rest"
      by simp_all
    define a b where "a = unat u - 0xD800" and "b = unat v - 0xDC00"
    from True low have u: "unat u = 0xD800 + a" and v: "unat v = 0xDC00 + b" and b: "b < 1024"
      by (auto simp: a_def b_def is_high_def is_low_def)
    have cp: "scalar_values (u # v # rest) = (0x10000 + a * 1024 + b) # scalar_values rest"
      using True low by (simp add: a_def b_def)
    have "units_of_scalar (0x10000 + a * 1024 + b)
        = [word_of_nat (0xD800 + a), word_of_nat (0xDC00 + b)]"
      using b by (simp add: units_of_scalar_def)
    also have "\<dots> = [u, v]"
      unfolding u [symmetric] v [symmetric] by simp
    finally show ?thesis
      using "1.IH"(1) True low wf unfolding cp by simp
  next
    case False
    with "1.prems" have "\<not> is_low u" and "well_formed (v # rest)"
      by simp_all
    with False "1.IH"(2) unit_bound [of u] show ?thesis
      by (simp add: units_of_scalar_def)
  qed
next
  case (2 u)
  with unit_bound [of u] show ?case
    by (simp add: units_of_scalar_def)
next
  case 3
  then show ?case by simp
qed

subsection \<open>Tokens\<close>

lemma decrypt_token:
  "decrypt C KEY (toHex iv @ CHR '':'' # toHex tag @ CHR '':'' # toHex ct) =
     (if length KEY \<noteq> 32 \<or> iv = [] then None
      else if \<not> valid_tag_length (length tag) then None
      else if tag \<noteq> take (length tag) (tag_bytes (auth_tag C KEY iv ct)) then None
      else Some (utf8_decode (utf8_repair C) (ctr_from (keystream_byte C KEY iv) 0 ct)))"
  unfolding decrypt_def splitOn_token
  by (simp add: fromHex_toHex length_toHex Let_def)

lemma encrypt_token:
  "encrypt C KEY iv s =
     (if length KEY \<noteq> 32 \<or> iv = [] then None
      else Some (toHex iv @ CHR '':'' #
                 toHex (tag_bytes (auth_tag C KEY iv (ctr_from (keystream_byte C KEY iv) 0 (utf8_encode s)))) @
                 CHR '':'' # toHex (ctr_from (keystream_byte C KEY iv) 0 (utf8_encode s))))"
  by (simp add: encrypt_def Let_def)

lemma encrypt_eval:
  assumes "length KEY = 32" and "iv \<noteq> []"
    and "utf8_encode s = pt"
    and "ctr_from (keystream_byte C KEY iv) 0 pt = ct"
    and "tag_bytes (auth_tag C KEY iv ct) = tag"
    and "toHex iv @ CHR '':'' # toHex tag @ CHR '':'' # toHex ct = token"
  shows "encrypt C KEY iv s = Some token"
  using assms by (simp add: encrypt_token)

lemma decrypt_encrypt_sanitised:
  assumes "length KEY = 32" and "iv \<noteq> []"
  shows "\<exists>token. encrypt C KEY iv s = Some token \<and>
           decrypt C KEY token = Some (concat (map units_of_scalar (scalar_values s)))"
  using assms
  by (simp add: encrypt_token decrypt_token valid_full_tag take_tag_bytes
        ctr_from_twice utf8_decode_encode)

lemma decrypt_of_encrypt:
  assumes "encrypt C KEY iv s = Some token" and "well_formed s"
  shows "decrypt C KEY token = Some s"
proof -
  from assms(1) have "length KEY = 32" and "iv \<noteq> []"
    by (auto simp: encrypt_def split: if_splits)
  from decrypt_encrypt_sanitised [OF this, of C s] assms show ?thesis
    by (simp add: units_of_scalar_values)
qed

lemma splitOn_token_extra:
  "splitOn CHR '':'' (toHex iv @ CHR '':'' # toHex tag @ CHR '':'' # toHex ct @ CHR '':'' # rest) =
     toHex iv # toHex tag # toHex ct # splitOn CHR '':'' rest"
  by (simp add: splitOn_append_sep colon_notin_toHex)

lemma decrypt_token_extra:
  "decrypt C KEY (toHex iv @ CHR '':'' # toHex tag @ CHR '':'' # toHex ct @ CHR '':'' # rest) =
   decrypt C KEY (toHex iv @ CHR '':'' # toHex tag @ CHR '':'' # toHex ct)"
  unfolding decrypt_def splitOn_token splitOn_token_extra by simp

lemma decrypt_encrypt_extra_field:
  assumes "encrypt C KEY iv s = Some token"
  shows "decrypt C KEY (token @ CHR '':'' # rest) = decrypt C KEY token"
proof -
  from assms have "token = toHex iv @ CHR '':'' #
      toHex (tag_bytes (auth_tag C KEY iv (ctr_from (keystream_byte C KEY iv) 0 (utf8_encode s)))) @
      CHR '':'' # toHex (ctr_from (keystream_byte C KEY iv) 0 (utf8_encode s))"
    by (simp add: encrypt_token split: if_splits)
  then show ?thesis
    using decrypt_token_extra [of C KEY iv _ _ rest] by simp
qed

text \<open>The token of \<open>post\<close> under the demonstration parameters, and under another key.\<close>

lemma demo_iv_nonempty: "demo_iv \<noteq> []"
  by (simp add: demo_iv_def)

lemma demo_key_length: "length demo_key = 32"
  by (simp add: demo_key_def)

lemma utf8_encode_post: "utf8_encode (js ''post'') = [0x70, 0x6F, 0x73, 0x74]"
  by (simp add: js_def utf8_encode_def utf8_of_scalar_def is_high_def is_low_def)

lemma well_formed_post: "well_formed (js ''post'')"
  by (simp add: js_def is_high_def is_low_def)

lemma encrypt_post:
  "encrypt demo_gcm demo_key demo_iv (js ''post'') =
     Some ''01010101010101010101010101010101:c8c8c8c8c8c8c8c8c8c8c8c8c8c8c8c6:77677a7e''"
proof (rule encrypt_eval [OF demo_key_length demo_iv_nonempty utf8_encode_post])
  show "ctr_from (keystream_byte demo_gcm demo_key demo_iv) 0 [0x70, 0x6F, 0x73, 0x74] =
      [0x77, 0x67, 0x7A, 0x7E]"
    by code_simp
  show "tag_bytes (auth_tag demo_gcm demo_key demo_iv [0x77, 0x67, 0x7A, 0x7E]) =
      [0xC8, 0xC8, 0xC8, 0xC8, 0xC8, 0xC8, 0xC8, 0xC8, 0xC8, 0xC8, 0xC8, 0xC8, 0xC8, 0xC8, 0xC8, 0xC6]"
    by code_simp
  show "toHex demo_iv @ CHR '':'' #
      toHex [0xC8, 0xC8, 0xC8, 0xC8, 0xC8, 0xC8, 0xC8, 0xC8, 0xC8, 0xC8, 0xC8, 0xC8, 0xC8, 0xC8, 0xC8, 0xC6] @
      CHR '':'' # toHex [0x77, 0x67, 0x7A, 0x7E] =
      ''01010101010101010101010101010101:c8c8c8c8c8c8c8c8c8c8c8c8c8c8c8c6:77677a7e''"
    by code_simp
qed

lemma decrypt_post:
  "decrypt demo_gcm demo_key
     ''01010101010101010101010101010101:c8c8c8c8c8c8c8c8c8c8c8c8c8c8c8c6:77677a7e'' = Some (js ''post'')"
  using decrypt_encrypt_sanitised [OF demo_key_length demo_iv_nonempty, of demo_gcm "js ''post''"]
    units_of_scalar_values [OF well_formed_post]
  unfolding encrypt_post by simp

lemma encrypt_post_other_key:
  "encrypt demo_gcm other_key demo_iv (js ''post'') =
     Some ''01010101010101010101010101010101:010101010101010101010101010100fe:79657878''"
proof (rule encrypt_eval [OF _ demo_iv_nonempty utf8_encode_post])
  show "length other_key = 32"
    by (simp add: other_key_def)
  show "ctr_from (keystream_byte demo_gcm other_key demo_iv) 0 [0x70, 0x6F, 0x73, 0x74] =
      [0x79, 0x65, 0x78, 0x78]"
    by code_simp
  show "tag_bytes (auth_tag demo_gcm other_key demo_iv [0x79, 0x65, 0x78, 0x78]) =
      [1, 1, 1, 1, 1, 1, 1, 1, 1, 1, 1, 1, 1, 1, 0, 0xFE]"
    by code_simp
  show "toHex demo_iv @ CHR '':'' #
      toHex [1, 1, 1, 1, 1, 1, 1, 1, 1, 1, 1, 1, 1, 1, 0, 0xFE] @
      CHR '':'' # toHex [0x79, 0x65, 0x78, 0x78] =
      ''01010101010101010101010101010101:010101010101010101010101010100fe:79657878''"
    by code_simp
qed

text \<open>
  C2, as amended.  Under a key of 32 bytes and with a nonce of 16 bytes, \<open>encrypt\<close>
  returns a token for every string, and for a string \<open>s\<close> without unpaired surrogates
  \<open>decrypt\<close> of that token returns exactly \<open>s\<close>, whatever the key stream and the tag
  function of the cipher are.
\<close>

theorem decrypt_encrypt_roundtrip:
  assumes "length KEY = 32" and "length iv = 16" and "well_formed s"
  shows "\<exists>token. encrypt C KEY iv s = Some token \<and> decrypt C KEY token = Some s"
proof -
  from assms(2) have "iv \<noteq> []"
    by auto
  from decrypt_encrypt_sanitised [OF assms(1) this, of C s] units_of_scalar_values [OF assms(3)]
  show ?thesis
    by simp
qed

theorem decrypt_encrypt_roundtrip_witness:
  "length demo_key = 32 \<and> length demo_iv = 16 \<and>
   well_formed [0xD83D, 0xDE00, 0xE9, 0x20AC] \<and>
   encrypt demo_gcm demo_key demo_iv [0xD83D, 0xDE00, 0xE9, 0x20AC] =
     Some ''01010101010101010101010101010101:2b2b2b2b2b2b2b2b2b2b2b2b2b2b2b24:f797918ac8a5ef8ca3'' \<and>
   decrypt demo_gcm demo_key
     ''01010101010101010101010101010101:2b2b2b2b2b2b2b2b2b2b2b2b2b2b2b24:f797918ac8a5ef8ca3'' =
     Some [0xD83D, 0xDE00, 0xE9, 0x20AC]"
proof -
  have wf: "well_formed [0xD83D, 0xDE00, 0xE9, 0x20AC]"
    by (simp add: is_high_def is_low_def)
  have iv: "length demo_iv = 16"
    by (simp add: demo_iv_def)
  have enc: "utf8_encode [0xD83D, 0xDE00, 0xE9, 0x20AC] =
      [0xF0, 0x9F, 0x98, 0x80, 0xC3, 0xA9, 0xE2, 0x82, 0xAC]"
    by (simp add: utf8_encode_def utf8_of_scalar_def is_high_def is_low_def)
  have e: "encrypt demo_gcm demo_key demo_iv [0xD83D, 0xDE00, 0xE9, 0x20AC] =
      Some ''01010101010101010101010101010101:2b2b2b2b2b2b2b2b2b2b2b2b2b2b2b24:f797918ac8a5ef8ca3''"
  proof (rule encrypt_eval [OF demo_key_length demo_iv_nonempty enc])
    show "ctr_from (keystream_byte demo_gcm demo_key demo_iv) 0
          [0xF0, 0x9F, 0x98, 0x80, 0xC3, 0xA9, 0xE2, 0x82, 0xAC] =
        [0xF7, 0x97, 0x91, 0x8A, 0xC8, 0xA5, 0xEF, 0x8C, 0xA3]"
      by code_simp
    show "tag_bytes (auth_tag demo_gcm demo_key demo_iv
          [0xF7, 0x97, 0x91, 0x8A, 0xC8, 0xA5, 0xEF, 0x8C, 0xA3]) =
        [0x2B, 0x2B, 0x2B, 0x2B, 0x2B, 0x2B, 0x2B, 0x2B, 0x2B, 0x2B, 0x2B, 0x2B, 0x2B, 0x2B, 0x2B, 0x24]"
      by code_simp
    show "toHex demo_iv @ CHR '':'' #
        toHex [0x2B, 0x2B, 0x2B, 0x2B, 0x2B, 0x2B, 0x2B, 0x2B, 0x2B, 0x2B, 0x2B, 0x2B, 0x2B, 0x2B, 0x2B, 0x24] @
        CHR '':'' # toHex [0xF7, 0x97, 0x91, 0x8A, 0xC8, 0xA5, 0xEF, 0x8C, 0xA3] =
        ''01010101010101010101010101010101:2b2b2b2b2b2b2b2b2b2b2b2b2b2b2b24:f797918ac8a5ef8ca3''"
      by code_simp
  qed
  from decrypt_encrypt_roundtrip [OF demo_key_length iv wf, of demo_gcm]
  have "decrypt demo_gcm demo_key
      ''01010101010101010101010101010101:2b2b2b2b2b2b2b2b2b2b2b2b2b2b2b24:f797918ac8a5ef8ca3'' =
      Some [0xD83D, 0xDE00, 0xE9, 0x20AC]"
    unfolding e by simp
  with e wf iv demo_key_length show ?thesis
    by simp
qed

text \<open>
  A string that consists of one high surrogate: its encoding is that of U+FFFD, and that
  is what \<open>decrypt\<close> returns.
\<close>

theorem decrypt_encrypt_lone_surrogate_counterexample:
  "\<not> well_formed [0xD800] \<and>
   encrypt demo_gcm demo_key demo_iv [0xD800] =
     Some ''01010101010101010101010101010101:46464646464646464646464646464643:e8b7b4'' \<and>
   decrypt demo_gcm demo_key
     ''01010101010101010101010101010101:46464646464646464646464646464643:e8b7b4'' = Some [0xFFFD]"
proof -
  have enc: "utf8_encode [0xD800] = [0xEF, 0xBF, 0xBD]"
    by (simp add: utf8_encode_def utf8_of_scalar_def is_high_def is_low_def)
  have e: "encrypt demo_gcm demo_key demo_iv [0xD800] =
      Some ''01010101010101010101010101010101:46464646464646464646464646464643:e8b7b4''"
  proof (rule encrypt_eval [OF demo_key_length demo_iv_nonempty enc])
    show "ctr_from (keystream_byte demo_gcm demo_key demo_iv) 0 [0xEF, 0xBF, 0xBD] = [0xE8, 0xB7, 0xB4]"
      by code_simp
    show "tag_bytes (auth_tag demo_gcm demo_key demo_iv [0xE8, 0xB7, 0xB4]) =
      [0x46, 0x46, 0x46, 0x46, 0x46, 0x46, 0x46, 0x46, 0x46, 0x46, 0x46, 0x46, 0x46, 0x46, 0x46, 0x43]"
      by code_simp
    show "toHex demo_iv @ CHR '':'' #
      toHex [0x46, 0x46, 0x46, 0x46, 0x46, 0x46, 0x46, 0x46, 0x46, 0x46, 0x46, 0x46, 0x46, 0x46, 0x46, 0x43] @
      CHR '':'' # toHex [0xE8, 0xB7, 0xB4] =
      ''01010101010101010101010101010101:46464646464646464646464646464643:e8b7b4''"
      by code_simp
  qed
  have san: "concat (map units_of_scalar (scalar_values [0xD800])) = [0xFFFD]"
    by (simp add: units_of_scalar_def is_high_def is_low_def)
  have d: "decrypt demo_gcm demo_key
      ''01010101010101010101010101010101:46464646464646464646464646464643:e8b7b4'' = Some [0xFFFD]"
    using decrypt_encrypt_sanitised [OF demo_key_length demo_iv_nonempty, of demo_gcm "[0xD800]"]
    unfolding e san by simp
  have "\<not> well_formed [0xD800]"
    by (simp add: is_high_def)
  with e d show ?thesis
    by simp
qed

text \<open>
  What \<open>decrypt\<close> accepts beyond the tokens of \<open>encrypt\<close>: a tag cut to 4, 8 or 12 to
  15 bytes, and a tag field with characters after its hex digits.
\<close>

lemma decrypt_short_tag:
  assumes "length KEY = 32" and "iv \<noteq> []" and "n = 4 \<or> n = 8 \<or> (12 \<le> n \<and> n \<le> 16)"
  shows "decrypt C KEY (toHex iv @ CHR '':'' # toHex (take n (tag_bytes (auth_tag C KEY iv ct))) @
            CHR '':'' # toHex ct) =
         Some (utf8_decode (utf8_repair C) (ctr_from (keystream_byte C KEY iv) 0 ct))"
  using assms by (auto simp: decrypt_token valid_tag_length_def length_tag_bytes min_def)

lemma decrypt_tag_trailing_garbage:
  assumes "length KEY = 32" and "iv \<noteq> []"
  shows "decrypt C KEY (toHex iv @ CHR '':'' # (toHex (tag_bytes (auth_tag C KEY iv ct)) @ ''zz'') @
            CHR '':'' # toHex ct) =
         Some (utf8_decode (utf8_repair C) (ctr_from (keystream_byte C KEY iv) 0 ct))"
proof -
  define g where "g = toHex (tag_bytes (auth_tag C KEY iv ct)) @ ''zz''"
  have z: "hexVal CHR ''z'' = None"
    by (simp add: hexVal_def)
  have tag: "fromHex g = tag_bytes (auth_tag C KEY iv ct)"
    unfolding g_def
    using fromHex_ignores_tail [of "CHR ''z''" "tag_bytes (auth_tag C KEY iv ct)" "''z''"] z by simp
  have "CHR '':'' \<notin> set g"
    by (simp add: g_def colon_notin_toHex)
  then have sp: "splitOn CHR '':'' (toHex iv @ CHR '':'' # g @ CHR '':'' # toHex ct) =
        [toHex iv, g, toHex ct]"
    by (simp add: splitOn_append_sep splitOn_no_sep colon_notin_toHex)
  have "decrypt C KEY (toHex iv @ CHR '':'' # g @ CHR '':'' # toHex ct) =
         Some (utf8_decode (utf8_repair C) (ctr_from (keystream_byte C KEY iv) 0 ct))"
    unfolding decrypt_def sp using assms
    by (simp add: tag fromHex_toHex length_toHex Let_def valid_full_tag take_tag_bytes)
  then show ?thesis
    unfolding g_def .
qed

text \<open>
  C6, as amended.  \<open>decrypt\<close> throws for every token with fewer than three fields and
  for every token whose third field has an odd number of characters.  It returns a
  plaintext only if the key has 32 bytes, the first field decodes to a non-empty nonce,
  the second to a tag of 4, 8 or 12 to 16 bytes that is the leading part of the tag
  computed from the key, the nonce and the decoded third field, and then the plaintext
  is the decoding of that ciphertext under the key stream.  Hence a token that \<open>encrypt\<close>
  produced under a key \<open>K1\<close> is rejected under the configured key exactly when the two
  keys give the ciphertext different tags, and a token of the configured key whose
  ciphertext was replaced (cut short, for one) is rejected exactly when the tag of the
  new ciphertext differs from the one in the token.
\<close>

theorem decrypt_rejects_unauthenticated:
  "(length (splitOn CHR '':'' short) < 3 \<longrightarrow> decrypt C KEY short = None) \<and>
   (splitOn CHR '':'' oddtok = f1 # f2 # f3 # fs \<and> odd (length f3) \<longrightarrow>
      decrypt C KEY oddtok = None) \<and>
   (decrypt C KEY token = Some plain \<longrightarrow>
      (\<exists>ivHex authTagHex encryptedText rest.
         splitOn CHR '':'' token = ivHex # authTagHex # encryptedText # rest \<and>
         length KEY = 32 \<and> fromHex ivHex \<noteq> [] \<and>
         valid_tag_length (length (fromHex authTagHex)) \<and>
         fromHex authTagHex =
           take (length (fromHex authTagHex))
             (tag_bytes (auth_tag C KEY (fromHex ivHex) (fromHex encryptedText))) \<and>
         plain = utf8_decode (utf8_repair C)
                   (ctr_from (keystream_byte C KEY (fromHex ivHex)) 0 (fromHex encryptedText)))) \<and>
   (encrypt C K1 iv s = Some token1 \<and> length KEY = 32 \<longrightarrow>
      decrypt C KEY token1 =
        (let ct = ctr_from (keystream_byte C K1 iv) 0 (utf8_encode s) in
         if tag_bytes (auth_tag C KEY iv ct) = tag_bytes (auth_tag C K1 iv ct)
         then Some (utf8_decode (utf8_repair C) (ctr_from (keystream_byte C KEY iv) 0 ct))
         else None)) \<and>
   (encrypt C KEY iv2 s2 = Some token2 \<longrightarrow>
      decrypt C KEY (toHex iv2 @ CHR '':'' #
          toHex (tag_bytes (auth_tag C KEY iv2 (ctr_from (keystream_byte C KEY iv2) 0 (utf8_encode s2)))) @
          CHR '':'' # toHex ct') =
        (if tag_bytes (auth_tag C KEY iv2 ct') =
            tag_bytes (auth_tag C KEY iv2 (ctr_from (keystream_byte C KEY iv2) 0 (utf8_encode s2)))
         then Some (utf8_decode (utf8_repair C) (ctr_from (keystream_byte C KEY iv2) 0 ct'))
         else None))"
proof (intro conjI impI)
  assume "length (splitOn CHR '':'' short) < 3"
  then show "decrypt C KEY short = None"
    by (auto simp: decrypt_def split: list.splits)
next
  assume "splitOn CHR '':'' oddtok = f1 # f2 # f3 # fs \<and> odd (length f3)"
  then show "decrypt C KEY oddtok = None"
    by (simp add: decrypt_def Let_def)
next
  assume "decrypt C KEY token = Some plain"
  then show "\<exists>ivHex authTagHex encryptedText rest.
         splitOn CHR '':'' token = ivHex # authTagHex # encryptedText # rest \<and>
         length KEY = 32 \<and> fromHex ivHex \<noteq> [] \<and>
         valid_tag_length (length (fromHex authTagHex)) \<and>
         fromHex authTagHex =
           take (length (fromHex authTagHex))
             (tag_bytes (auth_tag C KEY (fromHex ivHex) (fromHex encryptedText))) \<and>
         plain = utf8_decode (utf8_repair C)
                   (ctr_from (keystream_byte C KEY (fromHex ivHex)) 0 (fromHex encryptedText))"
    by (auto simp: decrypt_def Let_def split: list.splits if_splits)
next
  assume "encrypt C K1 iv s = Some token1 \<and> length KEY = 32"
  then show "decrypt C KEY token1 =
        (let ct = ctr_from (keystream_byte C K1 iv) 0 (utf8_encode s) in
         if tag_bytes (auth_tag C KEY iv ct) = tag_bytes (auth_tag C K1 iv ct)
         then Some (utf8_decode (utf8_repair C) (ctr_from (keystream_byte C KEY iv) 0 ct))
         else None)"
    by (auto simp: encrypt_token decrypt_token valid_tag_length_def length_tag_bytes Let_def
          split: if_splits)
next
  assume "encrypt C KEY iv2 s2 = Some token2"
  then show "decrypt C KEY (toHex iv2 @ CHR '':'' #
          toHex (tag_bytes (auth_tag C KEY iv2 (ctr_from (keystream_byte C KEY iv2) 0 (utf8_encode s2)))) @
          CHR '':'' # toHex ct') =
        (if tag_bytes (auth_tag C KEY iv2 ct') =
            tag_bytes (auth_tag C KEY iv2 (ctr_from (keystream_byte C KEY iv2) 0 (utf8_encode s2)))
         then Some (utf8_decode (utf8_repair C) (ctr_from (keystream_byte C KEY iv2) 0 ct'))
         else None)"
    by (auto simp: encrypt_token decrypt_token valid_tag_length_def length_tag_bytes
          split: if_splits)
qed

theorem decrypt_rejects_unauthenticated_witness:
  "length (splitOn CHR '':'' ''01010101010101010101010101010101:c8c8c8c8'') < 3 \<and>
   decrypt demo_gcm demo_key ''01010101010101010101010101010101:c8c8c8c8'' = None \<and>
   splitOn CHR '':'' ''01010101010101010101010101010101:c8c8c8c8c8c8c8c8c8c8c8c8c8c8c8c6:77677a7'' =
     [''01010101010101010101010101010101'', ''c8c8c8c8c8c8c8c8c8c8c8c8c8c8c8c6'', ''77677a7''] \<and>
   odd (length ''77677a7'') \<and>
   decrypt demo_gcm demo_key
     ''01010101010101010101010101010101:c8c8c8c8c8c8c8c8c8c8c8c8c8c8c8c6:77677a7'' = None \<and>
   decrypt demo_gcm demo_key
     ''01010101010101010101010101010101:c8c8c8c8c8c8c8c8c8c8c8c8c8c8c8c6:77677a7e'' = Some (js ''post'') \<and>
   encrypt demo_gcm other_key demo_iv (js ''post'') =
     Some ''01010101010101010101010101010101:010101010101010101010101010100fe:79657878'' \<and>
   length demo_key = 32 \<and>
   decrypt demo_gcm demo_key
     ''01010101010101010101010101010101:010101010101010101010101010100fe:79657878'' = None \<and>
   encrypt demo_gcm demo_key demo_iv (js ''post'') =
     Some ''01010101010101010101010101010101:c8c8c8c8c8c8c8c8c8c8c8c8c8c8c8c6:77677a7e'' \<and>
   decrypt demo_gcm demo_key
     ''01010101010101010101010101010101:c8c8c8c8c8c8c8c8c8c8c8c8c8c8c8c6:7767'' = None"
proof -
  have short: "length (splitOn CHR '':'' ''01010101010101010101010101010101:c8c8c8c8'') < 3"
    by code_simp
  have oddtok: "splitOn CHR '':''
        ''01010101010101010101010101010101:c8c8c8c8c8c8c8c8c8c8c8c8c8c8c8c6:77677a7'' =
      [''01010101010101010101010101010101'', ''c8c8c8c8c8c8c8c8c8c8c8c8c8c8c8c6'', ''77677a7''] \<and>
      odd (length ''77677a7'')"
    by code_simp
  have ct_other: "ctr_from (keystream_byte demo_gcm other_key demo_iv) 0 (utf8_encode (js ''post'')) =
      [0x79, 0x65, 0x78, 0x78]"
    unfolding utf8_encode_post by code_simp
  have tags_differ: "tag_bytes (auth_tag demo_gcm demo_key demo_iv [0x79, 0x65, 0x78, 0x78]) \<noteq>
      tag_bytes (auth_tag demo_gcm other_key demo_iv [0x79, 0x65, 0x78, 0x78])"
    by code_simp
  have ct_own: "ctr_from (keystream_byte demo_gcm demo_key demo_iv) 0 (utf8_encode (js ''post'')) =
      [0x77, 0x67, 0x7A, 0x7E]"
    unfolding utf8_encode_post by code_simp
  have cut_differs: "tag_bytes (auth_tag demo_gcm demo_key demo_iv [0x77, 0x67]) \<noteq>
      tag_bytes (auth_tag demo_gcm demo_key demo_iv [0x77, 0x67, 0x7A, 0x7E])"
    by code_simp
  have cut: "toHex demo_iv @ CHR '':'' #
      toHex (tag_bytes (auth_tag demo_gcm demo_key demo_iv [0x77, 0x67, 0x7A, 0x7E])) @
      CHR '':'' # toHex [0x77, 0x67] =
      ''01010101010101010101010101010101:c8c8c8c8c8c8c8c8c8c8c8c8c8c8c8c6:7767''"
    by code_simp
  from decrypt_rejects_unauthenticated
    [of "''01010101010101010101010101010101:c8c8c8c8''" demo_gcm demo_key
        "''01010101010101010101010101010101:c8c8c8c8c8c8c8c8c8c8c8c8c8c8c8c6:77677a7''"
        "''01010101010101010101010101010101''" "''c8c8c8c8c8c8c8c8c8c8c8c8c8c8c8c6''" "''77677a7''" "[]"
        "''01010101010101010101010101010101:c8c8c8c8c8c8c8c8c8c8c8c8c8c8c8c6:77677a7e''" "js ''post''"
        other_key demo_iv "js ''post''"
        "''01010101010101010101010101010101:010101010101010101010101010100fe:79657878''"
        demo_iv "js ''post''"
        "''01010101010101010101010101010101:c8c8c8c8c8c8c8c8c8c8c8c8c8c8c8c6:77677a7e''"
        "[0x77, 0x67]"]
  show ?thesis
    unfolding ct_other ct_own cut
    using short oddtok decrypt_post encrypt_post encrypt_post_other_key demo_key_length
      tags_differ cut_differs
    by (simp add: Let_def)
qed

text \<open>
  A token of four fields: the fourth is ignored, and the plaintext of the first three
  is returned.
\<close>

theorem decrypt_extra_field_counterexample:
  "length (splitOn CHR '':''
     ''01010101010101010101010101010101:c8c8c8c8c8c8c8c8c8c8c8c8c8c8c8c6:77677a7e:00'') = 4 \<and>
   decrypt demo_gcm demo_key
     ''01010101010101010101010101010101:c8c8c8c8c8c8c8c8c8c8c8c8c8c8c8c6:77677a7e:00'' = Some (js ''post'')"
proof -
  have "length (splitOn CHR '':''
     ''01010101010101010101010101010101:c8c8c8c8c8c8c8c8c8c8c8c8c8c8c8c6:77677a7e:00'') = 4"
    by code_simp
  moreover have "decrypt demo_gcm demo_key
     (''01010101010101010101010101010101:c8c8c8c8c8c8c8c8c8c8c8c8c8c8c8c6:77677a7e'' @ CHR '':'' # ''00'') =
     Some (js ''post'')"
    unfolding decrypt_encrypt_extra_field [OF encrypt_post] decrypt_post ..
  ultimately show ?thesis
    by simp
qed

section \<open>Properties of the workspace controller\<close>






lemma switchConnection_statements:
  assumes "userId \<noteq> []" and "connectionId \<noteq> 0"
  shows "snd (switchConnection db (Some userId) (Some connectionId))
           = run_statements db [DeactivateAll userId, ActivateOne connectionId userId]"
  using assms
  by (simp add: switchConnection_def run_statements_def Let_def split: prod.splits)

lemma switchConnection_zero_id:
  "switchConnection db userIdOpt (Some 0) = (400, db)"
  by (simp add: switchConnection_def split: option.splits)






section \<open>Properties of the schema cache\<close>


lemma startsWith_prefix: "startsWith s p \<longleftrightarrow> prefix p s"
  unfolding startsWith_def
  by (metis append_eq_conv_conj prefix_def)

lemma invalidate_loop:
  "foldl (\<lambda>c key. if P key then cache_del c key else c) c ks
     = filter (\<lambda>(k, v). \<not> (k \<in> set ks \<and> P k)) c"
proof (induction ks arbitrary: c)
  case Nil
  then show ?case by simp
next
  case (Cons a ks)
  show ?case
    by (auto simp: Cons.IH cache_del_def intro!: filter_cong)
qed

lemma map_of_filter_keys:
  "map_of (filter (\<lambda>(k, v). Q k) c) k = (if Q k then map_of c k else None)"
  by (induction c) auto

lemma cache_after_invalidate:
  "cache (invalidateUserCache an t)
     = filter (\<lambda>(k, v). \<not> startsWith k (''schema:'' @ t @ '':'')) (cache an)"
proof -
  have "filter (\<lambda>(k, v). \<not> (k \<in> set (map fst c) \<and> P k)) c = filter (\<lambda>(k, v). \<not> P k) c"
    for c :: schema_cache and P
    by (rule filter_cong) force+
  then show ?thesis
    unfolding invalidateUserCache_def Let_def invalidate_loop by simp
qed

lemma colon_notin_databaseType: "CHR '':'' \<notin> set (databaseType_string d)"
  by (cases d) (simp_all add: databaseType_string_def)

lemma prefix_tenant_key:
  assumes "CHR '':'' \<notin> set ds"
  shows "prefix (t @ '':'') (u @ '':'' @ ds) \<longleftrightarrow> u = t \<or> prefix (t @ '':'') u"
proof
  assume "u = t \<or> prefix (t @ '':'') u"
  then show "prefix (t @ '':'') (u @ '':'' @ ds)"
    by (auto simp: prefix_def)
next
  assume "prefix (t @ '':'') (u @ '':'' @ ds)"
  then consider "prefix (t @ '':'') u"
    | us where "t @ '':'' = u @ us" "prefix us ('':'' @ ds)"
    by (auto simp: prefix_append)
  then show "u = t \<or> prefix (t @ '':'') u"
  proof cases
    case 1
    then show ?thesis by simp
  next
    case 2
    show ?thesis
    proof (cases us)
      case Nil
      with 2 show ?thesis by simp
    next
      case (Cons x us')
      with 2 have x: "x = CHR '':''" and p: "prefix us' ds"
        by auto
      show ?thesis
      proof (cases "us' = []")
        case True
        with 2 Cons x show ?thesis by simp
      next
        case False
        from 2 Cons have "last (t @ '':'') = last (u @ x # us')" by simp
        with False have "last us' = CHR '':''" by simp
        with False have "CHR '':'' \<in> set us'" using last_in_set by metis
        with p assms show ?thesis by (auto simp: prefix_def)
      qed
    qed
  qed
qed

lemma startsWith_cacheKey:
  "startsWith (cacheKey u d) (''schema:'' @ t @ '':'') \<longleftrightarrow> u = t \<or> startsWith u (t @ '':'')"
proof -
  have "startsWith (cacheKey u d) (''schema:'' @ t @ '':'')
      \<longleftrightarrow> prefix (t @ '':'') (u @ '':'' @ databaseType_string d)"
    by (simp add: startsWith_prefix cacheKey_def)
  then show ?thesis
    using prefix_tenant_key [OF colon_notin_databaseType, of t u d]
    by (simp add: startsWith_prefix)
qed

text \<open>
  C8, as amended.  \<open>invalidateUserCache(t)\<close> removes every entry keyed to tenant \<open>t\<close>,
  whatever the dialect, and leaves the hit and miss counters alone.  The entry of another
  tenant \<open>u\<close> keeps its value unless the identifier \<open>u\<close> begins with \<open>t\<close> followed by a
  colon; such an entry is removed as well, because the keys are compared by prefix.
\<close>

theorem invalidateUserCache_effect:
  "cache_get (cache (invalidateUserCache an t)) (cacheKey t d) = None \<and>
   (u \<noteq> t \<and> \<not> startsWith u (t @ '':'') \<longrightarrow>
      cache_get (cache (invalidateUserCache an t)) (cacheKey u d)
        = cache_get (cache an) (cacheKey u d)) \<and>
   (startsWith u (t @ '':'') \<longrightarrow>
      cache_get (cache (invalidateUserCache an t)) (cacheKey u d) = None) \<and>
   hits (invalidateUserCache an t) = hits an \<and>
   misses (invalidateUserCache an t) = misses an"
proof -
  have "cache_get (cache (invalidateUserCache an t)) (cacheKey v d)
      = (if v = t \<or> startsWith v (t @ '':'') then None else cache_get (cache an) (cacheKey v d))"
    for v
    unfolding cache_get_def cache_after_invalidate map_of_filter_keys startsWith_cacheKey
    by simp
  then show ?thesis
    by (simp add: invalidateUserCache_def)
qed

theorem invalidateUserCache_effect_witness:
  "''bob'' \<noteq> ''al'' \<and> \<not> startsWith ''bob'' (''al'' @ '':'') \<and>
   cache_get (cache (invalidateUserCache
       \<lparr> cache = [(cacheKey ''al'' mysql, empty_context), (cacheKey ''bob'' mysql, empty_context)],
         hits = 1, misses = 2 \<rparr> ''al'')) (cacheKey ''al'' mysql) = None \<and>
   cache_get (cache (invalidateUserCache
       \<lparr> cache = [(cacheKey ''al'' mysql, empty_context), (cacheKey ''bob'' mysql, empty_context)],
         hits = 1, misses = 2 \<rparr> ''al'')) (cacheKey ''bob'' mysql) = Some empty_context"
proof -
  let ?an = "\<lparr> cache = [(cacheKey ''al'' mysql, empty_context),
      (cacheKey ''bob'' mysql, empty_context)], hits = 1, misses = 2 \<rparr>"
  have h: "''bob'' \<noteq> ''al'' \<and> \<not> startsWith ''bob'' (''al'' @ '':'')"
    by (simp add: startsWith_def)
  have v: "cache_get (cache ?an) (cacheKey ''bob'' mysql) = Some empty_context"
    by (simp add: cache_get_def cacheKey_def databaseType_string_def)
  from invalidateUserCache_effect [of ?an "''al''" mysql "''bob''"] h v
  show ?thesis by simp
qed

text \<open>
  The claim as stated fails for two tenants \<open>a\<close> and \<open>a:b\<close>: invalidating \<open>a\<close>
  removes the entry of \<open>a:b\<close>.
\<close>

theorem invalidateUserCache_other_tenant_counterexample:
  "''a:b'' \<noteq> ''a'' \<and>
   cache_get [(cacheKey ''a:b'' postgres, empty_context)] (cacheKey ''a:b'' postgres)
     = Some empty_context \<and>
   cache_get (cache (invalidateUserCache
       \<lparr> cache = [(cacheKey ''a:b'' postgres, empty_context)], hits = 0, misses = 0 \<rparr> ''a''))
     (cacheKey ''a:b'' postgres) = None"
  by (simp add: cache_get_def cacheKey_def databaseType_string_def invalidateUserCache_def
      startsWith_def cache_del_def)

section \<open>Properties of schema normalisation\<close>

lemma keyed_map_modify:
  assumes "keyed_by_name m" and "\<And>t. tableName (f t) = tableName t"
  shows "keyed_by_name (map_modify m k f)"
  using assms by (fastforce simp: keyed_by_name_def map_modify_def list_all_iff split: if_splits)

lemma has_column_map_modify:
  assumes "entry_has_column m tn cn"
    and "\<And>t. map columnName (columns (f t)) = map columnName (columns t)"
  shows "entry_has_column (map_modify m k f) tn cn"
proof -
  from assms(1) obtain t c where
    t: "(tn, t) \<in> set m" and c: "c \<in> set (columns t)" "columnName c = cn"
    by (auto simp: entry_has_column_def list_ex_iff)
  from c have "cn \<in> set (map columnName (columns t))" by force
  then have "cn \<in> set (map columnName (columns (f t)))"
    by (simp only: assms(2))
  then obtain c' where c': "c' \<in> set (columns (f t))" "columnName c' = cn"
    by auto
  from t have "(tn, if tn = k then f t else t) \<in> set (map_modify m k f)"
    by (force simp: map_modify_def)
  with c c' show ?thesis
    unfolding entry_has_column_def list_ex_iff
    by (cases "tn = k") force+
qed

lemma names_modify_first:
  assumes "\<And>x. columnName (g x) = columnName x"
  shows "map columnName (modify_first P g xs) = map columnName xs"
  by (induction xs) (simp_all add: assms)

lemma keyed_add_column_row: "keyed_by_name m \<Longrightarrow> keyed_by_name (add_column_row m row)"
  unfolding add_column_row_def Let_def
  by (rule keyed_map_modify) (simp_all add: keyed_by_name_def)

lemma keyed_column_rows: "keyed_by_name m \<Longrightarrow> keyed_by_name (foldl add_column_row m rs)"
  by (induction rs arbitrary: m) (simp_all add: keyed_add_column_row)

text \<open>What one constraint row does to the map: nothing, or a change of one table in place.\<close>

lemma apply_constraint_map:
  "fst (apply_constraint (m, rels) con) = m \<or>
   (\<exists>f. fst (apply_constraint (m, rels) con) = map_modify m (con_table_name con) f \<and>
        (\<forall>t. tableName (f t) = tableName t \<and>
             map columnName (columns (f t)) = map columnName (columns t)))"
proof (cases "map_of m (con_table_name con)")
  case None
  then show ?thesis by (simp add: apply_constraint_def)
next
  case (Some table)
  note tab = Some
  show ?thesis
  proof (cases "find (\<lambda>item. columnName item = con_column_name con) (columns table)")
    case None
    with tab show ?thesis by (simp add: apply_constraint_def)
  next
    case (Some column)
    consider (pk) "constraint_type con = ''PRIMARY KEY''"
      | (uq) "constraint_type con = ''UNIQUE''"
      | (fk) "constraint_type con = ''FOREIGN KEY''"
      | (other) "constraint_type con \<noteq> ''PRIMARY KEY''" "constraint_type con \<noteq> ''UNIQUE''"
          "constraint_type con \<noteq> ''FOREIGN KEY''"
      by blast
    then show ?thesis
    proof cases
      case pk
      let ?f = "\<lambda>t. t\<lparr> primaryKey :=
          Some ((case primaryKey t of None \<Rightarrow> [] | Some pk \<Rightarrow> pk) @ [con_column_name con]) \<rparr>"
      from tab Some pk have "fst (apply_constraint (m, rels) con)
          = map_modify m (con_table_name con) ?f"
        by (simp add: apply_constraint_def)
      then show ?thesis
        by (intro disjI2 exI [of _ ?f]) simp
    next
      case uq
      let ?f = "\<lambda>t. t\<lparr> columns :=
            modify_first (\<lambda>item. columnName item = con_column_name con)
              (\<lambda>c. c\<lparr> isUnique := True \<rparr>) (columns t),
          indexes := Some ((case indexes t of None \<Rightarrow> [] | Some ix \<Rightarrow> ix)
              @ [\<lparr> indexName = ''uniq_'' @ con_table_name con @ ''_'' @ con_column_name con,
                   idx_columns = [con_column_name con], idx_isUnique = True \<rparr>]) \<rparr>"
      from tab Some uq have "fst (apply_constraint (m, rels) con)
          = map_modify m (con_table_name con) ?f"
        by (simp add: apply_constraint_def)
      then show ?thesis
        by (intro disjI2 exI [of _ ?f]) (simp add: names_modify_first)
    next
      case fk
      let ?f = "\<lambda>t. t\<lparr> columns :=
            modify_first (\<lambda>item. columnName item = con_column_name con)
              (\<lambda>c. c\<lparr> isForeignKey := True,
                      foreignKeyReference := referenced_table_name con \<rparr>) (columns t) \<rparr>"
      from tab Some fk have "fst (apply_constraint (m, rels) con)
          = map_modify m (con_table_name con) ?f"
        by (simp add: apply_constraint_def)
      then show ?thesis
        by (intro disjI2 exI [of _ ?f]) (simp add: names_modify_first)
    next
      case other
      with tab Some show ?thesis by (simp add: apply_constraint_def)
    qed
  qed
qed

lemma keyed_apply_constraint:
  assumes "keyed_by_name m"
  shows "keyed_by_name (fst (apply_constraint (m, rels) con))"
  using apply_constraint_map [of m rels con]
proof (elim disjE exE conjE)
  assume "fst (apply_constraint (m, rels) con) = m"
  with assms show ?thesis by simp
next
  fix f
  assume "fst (apply_constraint (m, rels) con) = map_modify m (con_table_name con) f"
    and "\<forall>t. tableName (f t) = tableName t \<and>
      map columnName (columns (f t)) = map columnName (columns t)"
  with assms show ?thesis by (simp add: keyed_map_modify)
qed

lemma has_column_apply_constraint:
  assumes "entry_has_column m tn cn"
  shows "entry_has_column (fst (apply_constraint (m, rels) con)) tn cn"
  using apply_constraint_map [of m rels con]
proof (elim disjE exE conjE)
  assume "fst (apply_constraint (m, rels) con) = m"
  with assms show ?thesis by simp
next
  fix f
  assume "fst (apply_constraint (m, rels) con) = map_modify m (con_table_name con) f"
    and "\<forall>t. tableName (f t) = tableName t \<and>
      map columnName (columns (f t)) = map columnName (columns t)"
  with assms show ?thesis by (simp add: has_column_map_modify)
qed

text \<open>What one constraint row does to the relationships: nothing, or one more at the end.\<close>

lemma apply_constraint_rels:
  "snd (apply_constraint (m, rels) con) = rels \<or>
   (\<exists>r. snd (apply_constraint (m, rels) con) = rels @ [r] \<and> copied_from r con \<and>
        entry_has_column m (fromTable r) (fromColumn r))"
proof (cases "map_of m (con_table_name con)")
  case None
  then show ?thesis by (simp add: apply_constraint_def)
next
  case (Some table)
  note tab = Some
  show ?thesis
  proof (cases "find (\<lambda>item. columnName item = con_column_name con) (columns table)")
    case None
    with tab show ?thesis by (simp add: apply_constraint_def)
  next
    case (Some column)
    then have col: "column \<in> set (columns table)" "columnName column = con_column_name con"
      by (auto simp: find_Some_iff)
    from tab have "(con_table_name con, table) \<in> set m"
      by (rule map_of_SomeD)
    with col have present: "entry_has_column m (con_table_name con) (con_column_name con)"
      by (force simp: entry_has_column_def list_ex_iff)
    show ?thesis
    proof (cases "constraint_type con = ''FOREIGN KEY''")
      case False
      with tab Some show ?thesis by (simp add: apply_constraint_def)
    next
      case True
      show ?thesis
      proof (cases "referenced_table_name con")
        case None
        with tab Some True show ?thesis by (simp add: apply_constraint_def)
      next
        case (Some refTable)
        note ref = Some
        show ?thesis
        proof (cases "refTable = []")
          case True
          with tab \<open>find _ _ = Some column\<close> \<open>constraint_type con = ''FOREIGN KEY''\<close> ref
          show ?thesis by (simp add: apply_constraint_def)
        next
          case False
          with tab \<open>find _ _ = Some column\<close> \<open>constraint_type con = ''FOREIGN KEY''\<close> ref present
          show ?thesis by (simp add: apply_constraint_def copied_from_def)
        qed
      qed
    qed
  qed
qed

lemma constraint_rows_invariant:
  assumes "foldl apply_constraint (m, rels) cs = (m', rels')"
    and "keyed_by_name m"
    and "\<forall>r \<in> set rels. entry_has_column m (fromTable r) (fromColumn r) \<and> (\<exists>c \<in> set cs0. copied_from r c)"
    and "set cs \<subseteq> set cs0"
  shows "keyed_by_name m' \<and>
         (\<forall>r \<in> set rels'. entry_has_column m' (fromTable r) (fromColumn r) \<and> (\<exists>c \<in> set cs0. copied_from r c))"
  using assms
proof (induction cs arbitrary: m rels)
  case Nil
  then show ?case by simp
next
  case (Cons con cs)
  obtain m1 rels1 where step: "apply_constraint (m, rels) con = (m1, rels1)"
    by (cases "apply_constraint (m, rels) con")
  from Cons.prems(1) step have run: "foldl apply_constraint (m1, rels1) cs = (m', rels')"
    by simp
  from step have m1: "m1 = fst (apply_constraint (m, rels) con)"
    and r1: "rels1 = snd (apply_constraint (m, rels) con)"
    by simp_all
  have k1: "keyed_by_name m1"
    unfolding m1 using Cons.prems(2) by (rule keyed_apply_constraint)
  have con: "con \<in> set cs0"
    using Cons.prems(4) by simp
  have old: "entry_has_column m1 (fromTable r) (fromColumn r) \<and> (\<exists>c \<in> set cs0. copied_from r c)"
    if "r \<in> set rels" for r
    unfolding m1 using Cons.prems(3) that by (auto intro: has_column_apply_constraint)
  have inv1: "\<forall>r \<in> set rels1. entry_has_column m1 (fromTable r) (fromColumn r)
      \<and> (\<exists>c \<in> set cs0. copied_from r c)"
  proof
    fix r
    assume r: "r \<in> set rels1"
    from apply_constraint_rels [of m rels con]
    show "entry_has_column m1 (fromTable r) (fromColumn r) \<and> (\<exists>c \<in> set cs0. copied_from r c)"
    proof
      assume "snd (apply_constraint (m, rels) con) = rels"
      with r r1 show ?thesis by (simp add: old)
    next
      assume "\<exists>r'. snd (apply_constraint (m, rels) con) = rels @ [r'] \<and> copied_from r' con \<and>
        entry_has_column m (fromTable r') (fromColumn r')"
      then obtain r' where r': "rels1 = rels @ [r']" "copied_from r' con"
        "entry_has_column m (fromTable r') (fromColumn r')"
        using r1 by auto
      show ?thesis
      proof (cases "r = r'")
        case True
        with r' con show ?thesis
          unfolding m1 by (auto intro: has_column_apply_constraint)
      next
        case False
        with r r' have "r \<in> set rels" by simp
        then show ?thesis by (rule old)
      qed
    qed
  qed
  from Cons.prems(4) have "set cs \<subseteq> set cs0" by simp
  from Cons.IH [OF run k1 inv1 this] show ?case .
qed

lemma column_present_tables:
  assumes "keyed_by_name m" and "entry_has_column m tn cn"
  shows "column_present (map snd m) tn cn"
proof -
  from assms(2) obtain t c where
    t: "(tn, t) \<in> set m" and c: "c \<in> set (columns t)" "columnName c = cn"
    by (auto simp: entry_has_column_def list_ex_iff)
  from assms(1) t have "tableName t = tn"
    by (auto simp: keyed_by_name_def list_all_iff)
  moreover from t have "t \<in> set (map snd m)" by force
  ultimately show ?thesis
    using c unfolding column_present_def list_ex_iff by auto
qed

text \<open>
  C3, as amended.  For every raw payload and dialect, every relationship of the schema
  context built by \<open>parseSchema\<close> has a referencing endpoint (\<open>fromTable\<close>,
  \<open>fromColumn\<close>) that names a table of \<open>tables\<close> and a column of that table.  Its
  referenced endpoint is copied from a foreign-key constraint row: \<open>toTable\<close> is the
  non-empty \<open>referenced_table_name\<close> and \<open>toColumn\<close> the \<open>referenced_column_name\<close>
  or, when that is absent, the name of the referencing column; it is not looked up in
  \<open>tables\<close>.
\<close>

theorem parseSchema_relationship_endpoints:
  "\<forall>r \<in> set (relationships (parseSchema rawSchema dbType now)).
     column_present (tables (parseSchema rawSchema dbType now)) (fromTable r) (fromColumn r) \<and>
     (\<exists>con \<in> set (case raw_constraints rawSchema of None \<Rightarrow> [] | Some cs \<Rightarrow> cs).
        copied_from r con)"
proof -
  let ?rows = "case raw_schema rawSchema of None \<Rightarrow> [] | Some rs \<Rightarrow> rs"
  let ?cs = "case raw_constraints rawSchema of None \<Rightarrow> [] | Some cs \<Rightarrow> cs"
  let ?m0 = "foldl add_column_row [] ?rows"
  obtain m' rels' where run: "foldl apply_constraint (?m0, []) ?cs = (m', rels')"
    by (cases "foldl apply_constraint (?m0, []) ?cs")
  have k0: "keyed_by_name ?m0"
    by (rule keyed_column_rows) (simp add: keyed_by_name_def)
  have "keyed_by_name m' \<and>
      (\<forall>r \<in> set rels'. entry_has_column m' (fromTable r) (fromColumn r)
          \<and> (\<exists>c \<in> set ?cs. copied_from r c))"
    by (rule constraint_rows_invariant [OF run k0]) simp_all
  moreover have "tables (parseSchema rawSchema dbType now) = map snd m'"
    and "relationships (parseSchema rawSchema dbType now) = rels'"
    using run by (simp_all add: parseSchema_def)
  ultimately show ?thesis
    by (auto intro: column_present_tables)
qed

theorem parseSchema_relationship_endpoints_witness:
  "relationships (parseSchema shop_payload postgres 0)
     = [\<lparr> fromTable = ''orders'', toTable = ''users'', fromColumn = ''user_id'',
          toColumn = ''user_id'', rel_type = ONE_TO_MANY \<rparr>] \<and>
   column_present (tables (parseSchema shop_payload postgres 0)) ''orders'' ''user_id''"
proof -
  have r: "relationships (parseSchema shop_payload postgres 0)
     = [\<lparr> fromTable = ''orders'', toTable = ''users'', fromColumn = ''user_id'',
          toColumn = ''user_id'', rel_type = ONE_TO_MANY \<rparr>]"
    by code_simp
  from parseSchema_relationship_endpoints [of shop_payload postgres 0] r
  show ?thesis by simp
qed

text \<open>
  The claim as stated fails on the referenced endpoint: for the foreign key from
  \<open>orders.user_id\<close> to \<open>users\<close> the relationship names the column \<open>users.user_id\<close>,
  and \<open>users\<close> has no such column.
\<close>

theorem parseSchema_referenced_endpoint_counterexample:
  "relationships (parseSchema shop_payload postgres 0)
     = [\<lparr> fromTable = ''orders'', toTable = ''users'', fromColumn = ''user_id'',
          toColumn = ''user_id'', rel_type = ONE_TO_MANY \<rparr>] \<and>
   \<not> column_present (tables (parseSchema shop_payload postgres 0)) ''users'' ''user_id''"
  by code_simp

section \<open>Properties of the connection pool manager\<close>

lemma getPool_stored:
  "pools mgr t = Some h \<Longrightarrow> getPool C KEY mgr t url = (Inr h, mgr)"
  by (simp add: getPool_def)




lemma closePool_begin_pools: "pools (closePool_begin mgr u) = pools mgr"
  by (auto simp: closePool_begin_def split: option.splits)


lemma closePool_begin_stored:
  "pools mgr u = Some h \<Longrightarrow> u \<in> set (closing (closePool_begin mgr u))"
  by (simp add: closePool_begin_def)



















lemma getPool_throws:
  assumes "pools mgr t = None" and "decrypt C KEY url = None"
  shows "getPool C KEY mgr t url = (Inl DecryptionError, mgr)"
  using assms by (simp add: getPool_def)

text \<open>
  While a call of \<open>closePool\<close> is suspended the entry is still in the map, and \<open>getPool\<close>
  returns the handle that is being ended.
\<close>

lemma getPool_while_closing:
  assumes "pools mgr t = Some h"
  shows "getPool C KEY (closePool_begin mgr t) t url = (Inr h, closePool_begin mgr t)"
    and "t \<in> set (closing (closePool_begin mgr t))"
  using assms by (simp_all add: getPool_stored closePool_begin_pools closePool_begin_stored)





lemma utf8_encode_mysql:
  "utf8_encode (js ''mysql://db'') = [0x6D, 0x79, 0x73, 0x71, 0x6C, 0x3A, 0x2F, 0x2F, 0x64, 0x62]"
  by (simp add: js_def utf8_encode_def utf8_of_scalar_def is_high_def is_low_def)

lemma encrypt_mysql:
  "encrypt demo_gcm demo_key demo_iv (js ''mysql://db'') = Some mysql_token"
proof (rule encrypt_eval [OF demo_key_length demo_iv_nonempty utf8_encode_mysql])
  show "ctr_from (keystream_byte demo_gcm demo_key demo_iv) 0
        [0x6D, 0x79, 0x73, 0x71, 0x6C, 0x3A, 0x2F, 0x2F, 0x64, 0x62] =
      [0x6A, 0x71, 0x7A, 0x7B, 0x67, 0x36, 0x22, 0x21, 0x6B, 0x72]"
    by code_simp
  show "tag_bytes (auth_tag demo_gcm demo_key demo_iv
        [0x6A, 0x71, 0x7A, 0x7B, 0x67, 0x36, 0x22, 0x21, 0x6B, 0x72]) =
      [0x81, 0x81, 0x81, 0x81, 0x81, 0x81, 0x81, 0x81, 0x81, 0x81, 0x81, 0x81, 0x81, 0x81, 0x81, 0x7D]"
    by code_simp
  show "toHex demo_iv @ CHR '':'' #
      toHex [0x81, 0x81, 0x81, 0x81, 0x81, 0x81, 0x81, 0x81, 0x81, 0x81, 0x81, 0x81, 0x81, 0x81, 0x81, 0x7D] @
      CHR '':'' # toHex [0x6A, 0x71, 0x7A, 0x7B, 0x67, 0x36, 0x22, 0x21, 0x6B, 0x72] = mysql_token"
    by code_simp
qed

lemma decrypt_mysql_token: "decrypt demo_gcm demo_key mysql_token = Some (js ''mysql://db'')"
proof -
  have "well_formed (js ''mysql://db'')"
    by (simp add: js_def is_high_def is_low_def)
  with encrypt_mysql show ?thesis
    by (rule decrypt_of_encrypt)
qed

lemma decrypt_no_token: "decrypt C KEY ''zz'' = None"
  by (simp add: decrypt_def)


lemma mysql_is_mysql: "isMysql (js ''mysql://db'')"
  by (simp add: isMysql_def js_def lower_unit_def)

lemma js_nonempty: "js (c # s) \<noteq> []"
  by (simp add: js_def)





text \<open>
  A string that is not a token cannot be decrypted: after \<open>closePool\<close> the call with it
  throws, and the tenant stays without a pool.
\<close>

lemma getPool_after_close_undecryptable:
  "getPool demo_gcm demo_key (closePool u1_manager ''u1'') ''u1'' ''zz''
     = (Inl DecryptionError, closePool u1_manager ''u1'') \<and>
   pools (closePool u1_manager ''u1'') ''u1'' = None"
proof -
  have absent: "pools (closePool u1_manager ''u1'') ''u1'' = None"
    by (simp add: closePool_def closePool_begin_def closePool_finally_def u1_manager_def)
  then show ?thesis
    by (simp add: getPool_throws decrypt_no_token)
qed

text \<open>
  What a first use constructs, by dialect: the Postgres pool is bounded and observed,
  the MySQL adapter is built from the connection string alone.
\<close>

lemma getPool_first_use:
  assumes "pools mgr t = None" and "decrypt C KEY url = Some cs" and "cs \<noteq> []"
  shows "fst (getPool C KEY mgr t url) = Inr
     (if isMysql cs
      then \<lparr> handle_id = next_handle mgr, handle_dialect = MySQL, connectionString = cs,
             opt_max = None, opt_idleTimeoutMillis = None, opt_connectionTimeoutMillis = None,
             error_listener = None \<rparr>
      else \<lparr> handle_id = next_handle mgr, handle_dialect = Postgres, connectionString = cs,
             opt_max = Some 10, opt_idleTimeoutMillis = Some 30000,
             opt_connectionTimeoutMillis = Some 5000, error_listener = Some t \<rparr>)"
  using assms by (simp add: getPool_def Let_def)

text \<open>
  The error observer of a Postgres pool: when the pool emits \<open>'error'\<close>, \<open>closePool\<close> is
  invoked for the user the pool was built for, and the entry is deleted when that call
  is resumed.
\<close>

lemma error_listener_closes:
  assumes "pools mgr t = Some h" and "error_listener h = Some t"
  shows "pools (pool_run C KEY mgr [ErrorEmitted h, ClosePoolResumed t]) t = None"
  using assms by (simp add: pool_run_def closePool_begin_def closePool_finally_def)

text \<open>
  C4.  On the first use by a tenant whose connection string is a MySQL one, the pool
  that \<open>getPool\<close> constructs has no maximum, no acquire timeout and no idle timeout set
  by the code, and no error listener: the bounds and the observer of the claim exist in
  the Postgres branch only.
\<close>

theorem getPool_mysql_first_use:
  "fst (getPool demo_gcm demo_key new_ConnectionManager ''u1''
          ''01010101010101010101010101010101:8181818181818181818181818181817d:6a717a7b673622216b72'')
     = Inr \<lparr> handle_id = 0, handle_dialect = MySQL, connectionString = js ''mysql://db'',
             opt_max = None, opt_idleTimeoutMillis = None, opt_connectionTimeoutMillis = None,
             error_listener = None \<rparr>"
  using decrypt_mysql_token
  by (simp add: getPool_def Let_def mysql_is_mysql js_nonempty new_ConnectionManager_def
      mysql_token_def)

section \<open>Properties of the query execution gateway\<close>







text \<open>
  An array of results has no \<open>rows\<close>: the format \<open>'json'\<close> passes \<open>undefined\<close> on with
  the row count 0, any other format throws on \<open>result.rows[0]\<close>.
\<close>

lemma shape_pg_results:
  "shape_result format (pg_query_result (PgResults rs)) =
     (if format = ''json'' then Inr (JsonResult None 0) else Inl TypeError)"
  by (simp add: shape_result_def)






section \<open>Properties of the query validator\<close>

lemma validate_unqualified:
  "validateQuery select_by_email postgres users_context
     = \<lparr> isValid = True, errors = [],
         warnings = [''SELECT * detected; prefer explicit columns for better performance''],
         suggestedIndexes = None, result_indexes = None \<rparr>"
  by code_simp

lemma validate_qualified:
  "validateQuery select_by_users_email postgres users_context
     = \<lparr> isValid = True, errors = [],
         warnings = [''SELECT * detected; prefer explicit columns for better performance''],
         suggestedIndexes = Some [''CREATE INDEX idx_users_email ON users(email);''],
         result_indexes = Some [''CREATE INDEX idx_users_email ON users(email);''] \<rparr>"
  by code_simp

text \<open>
  A match whose column reference has no dot never adds a suggestion, whatever the schema.
\<close>

lemma suggest_for_match_unqualified:
  assumes "\<not> includes_str
      (trim (rx_remove_first False eqSuffix_rx (rx_remove_first True wherePrefix_rx m))) ''.''"
  shows "suggest_for_match schemaContext suggested m = suggested"
  using assms by (simp add: suggest_for_match_def Let_def)

text \<open>
  C5, as amended.  Validating \<open>SELECT * FROM users WHERE email = 'x'\<close> against
  \<open>users(id, email)\<close> with no index on \<open>email\<close> yields a valid result with the
  warning about \<open>SELECT *\<close> and no suggested index, because the column of the
  \<open>WHERE\<close> clause is not qualified by a table; validating the same statement with
  \<open>users.email\<close> yields the warning and the suggestion
  \<open>CREATE INDEX idx_users_email ON users(email);\<close>.
\<close>

theorem validateQuery_select_by_email:
  "validateQuery select_by_email postgres users_context
     = \<lparr> isValid = True, errors = [],
         warnings = [''SELECT * detected; prefer explicit columns for better performance''],
         suggestedIndexes = None, result_indexes = None \<rparr> \<and>
   validateQuery select_by_users_email postgres users_context
     = \<lparr> isValid = True, errors = [],
         warnings = [''SELECT * detected; prefer explicit columns for better performance''],
         suggestedIndexes = Some [''CREATE INDEX idx_users_email ON users(email);''],
         result_indexes = Some [''CREATE INDEX idx_users_email ON users(email);''] \<rparr>"
  by (simp only: validate_unqualified validate_qualified)

text \<open>
  The claim as stated fails: for the unqualified column no index is suggested.
\<close>

theorem validateQuery_no_suggestion_counterexample:
  "suggestedIndexes (validateQuery select_by_email postgres users_context) = None"
  by (simp add: validate_unqualified)

end
